theory Spec2Isabelle
  imports Main "HOL-Library.Word" "HOL-Library.AList" "HOL-Library.Sublist"
begin

section \<open>Strings of the JavaScript runtime\<close>

text \<open>
  The intake endpoint, a serverless edge function, works on JavaScript strings. A
  \<^typ>\<open>char\<close> stands for one code unit; the model covers the code units 0 to 255.
  The library functions the handler calls (\<^verbatim>\<open>trim\<close>, \<^verbatim>\<open>includes\<close>,
  \<^verbatim>\<open>split\<close>) are written out here; \<^verbatim>\<open>substring(0, n)\<close> is \<^const>\<open>take\<close>.
\<close>

text \<open>White space and line terminators of ECMAScript below code unit 256: TAB, LF, VT, FF,
  CR, SPACE and NBSP. \<^verbatim>\<open>trim\<close> and the regular expression class \<^verbatim>\<open>\s\<close> use the same set.\<close>

definition is_space :: "char \<Rightarrow> bool" where
  "is_space c = (of_char c \<in> {9, 10, 11, 12, 13, 32, 160 :: nat})"

definition trim :: "string \<Rightarrow> string" where
  "trim s = rev (dropWhile is_space (rev (dropWhile is_space s)))"

fun startsWith :: "string \<Rightarrow> string \<Rightarrow> bool" where
  "startsWith s [] = True"
| "startsWith [] (p # ps) = False"
| "startsWith (c # cs) (p # ps) = (c = p \<and> startsWith cs ps)"

text \<open>\<^verbatim>\<open>s.includes(sub)\<close>: \<open>sub\<close> occurs somewhere in \<open>s\<close>.\<close>

fun str_includes :: "string \<Rightarrow> string \<Rightarrow> bool" where
  "str_includes [] sub = (sub = [])"
| "str_includes (c # cs) sub = (startsWith (c # cs) sub \<or> str_includes cs sub)"

text \<open>\<^verbatim>\<open>s.split(',')\<close>: always at least one piece.\<close>

fun split_comma :: "string \<Rightarrow> string list" where
  "split_comma [] = [[]]"
| "split_comma (c # cs) =
     (if c = CHR '','' then [] # split_comma cs
      else (case split_comma cs of
              [] \<Rightarrow> [[c]]
            | w # ws \<Rightarrow> (c # w) # ws))"

text \<open>\<^verbatim>\<open>a || b\<close> on values that are a string, \<^verbatim>\<open>null\<close> or \<^verbatim>\<open>undefined\<close>: the empty
  string is falsy like the two missing values.\<close>

definition truthy :: "string option \<Rightarrow> bool" where
  "truthy v = (case v of None \<Rightarrow> False | Some s \<Rightarrow> s \<noteq> [])"

definition or_else :: "string option \<Rightarrow> string \<Rightarrow> string" where
  "or_else v d = (case v of None \<Rightarrow> d | Some s \<Rightarrow> if s = [] then d else s)"

section \<open>Configuration\<close>

text \<open>The environment variables read at module load (\<^verbatim>\<open>process.env\<close>).\<close>

record config =
  WEBHOOK_URL :: "string option"
  SUPABASE_URL :: "string option"
  SUPABASE_SERVICE_KEY :: "string option"
  SUPABASE_BUCKET_env :: "string option"
  ALLOWED_ORIGINS_env :: "string option"

definition SUPABASE_BUCKET :: "config \<Rightarrow> string" where
  "SUPABASE_BUCKET cfg = or_else (SUPABASE_BUCKET_env cfg) ''temp_files''"

text \<open>\<^verbatim>\<open>(process.env.ALLOWED_ORIGINS || '').split(',').filter(Boolean)\<close>\<close>

definition ALLOWED_ORIGINS :: "config \<Rightarrow> string list" where
  "ALLOWED_ORIGINS cfg =
     filter (\<lambda>s. s \<noteq> []) (split_comma (or_else (ALLOWED_ORIGINS_env cfg) ''''))"

definition RATE_LIMIT_WINDOW_MS :: int where
  "RATE_LIMIT_WINDOW_MS = 60 * 1000"

definition RATE_LIMIT_MAX_REQUESTS :: int where
  "RATE_LIMIT_MAX_REQUESTS = 10"

definition MAX_FILE_SIZE :: nat where
  "MAX_FILE_SIZE = 25 * 1024 * 1024"

definition ALLOWED_MIME_TYPES :: "string list" where
  "ALLOWED_MIME_TYPES =
     [''application/pdf'',
      ''application/vnd.ms-excel'',
      ''application/vnd.openxmlformats-officedocument.spreadsheetml.sheet'',
      ''application/msword'',
      ''application/vnd.openxmlformats-officedocument.wordprocessingml.document'',
      ''text/csv'',
      ''image/jpeg'',
      ''image/png'',
      ''image/gif'']"

definition ALLOWED_FILE_CATEGORIES :: "string list" where
  "ALLOWED_FILE_CATEGORIES =
     [''pnl'', ''rentRoll'', ''t12'', ''om'', ''capex'', ''utility'', ''financialInfo'']"

section \<open>CORS headers\<close>

type_synonym headers = "(string \<times> string) list"

text \<open>\<^verbatim>\<open>ALLOWED_ORIGINS.length === 0 || ALLOWED_ORIGINS.includes(origin)
      || origin?.includes('vercel.app')\<close>; the handler always passes a string.\<close>

definition isAllowed :: "config \<Rightarrow> string \<Rightarrow> bool" where
  "isAllowed cfg origin =
     (length (ALLOWED_ORIGINS cfg) = 0 \<or> origin \<in> set (ALLOWED_ORIGINS cfg)
      \<or> str_includes origin ''vercel.app'')"

text \<open>\<^verbatim>\<open>isAllowed ? origin : ALLOWED_ORIGINS[0] || '*'\<close>: the conditional binds weaker
  than \<^verbatim>\<open>||\<close>, so the wildcard belongs to the else branch only.\<close>

definition allowOrigin :: "config \<Rightarrow> string \<Rightarrow> string" where
  "allowOrigin cfg origin =
     (if isAllowed cfg origin then origin
      else (case ALLOWED_ORIGINS cfg of
              [] \<Rightarrow> ''*''
            | first # _ \<Rightarrow> if first = [] then ''*'' else first))"

definition getCorsHeaders :: "config \<Rightarrow> string \<Rightarrow> headers" where
  "getCorsHeaders cfg origin =
     [(''Access-Control-Allow-Origin'', allowOrigin cfg origin),
      (''Access-Control-Allow-Methods'', ''POST, OPTIONS''),
      (''Access-Control-Allow-Headers'', ''Content-Type, X-Requested-With''),
      (''Access-Control-Max-Age'', ''86400''),
      (''Content-Type'', ''application/json'')]"

section \<open>Rate limiter\<close>

text \<open>The module-level \<^verbatim>\<open>rateLimitStore\<close>, a \<^verbatim>\<open>Map\<close> from caller identifier to
  \<^verbatim>\<open>{count, timestamp}\<close>. \<^verbatim>\<open>Date.now()\<close> is an argument of the model.\<close>

record rl_entry =
  count :: int
  timestamp :: int

type_synonym rl_store = "string \<rightharpoonup> rl_entry"

record rl_result =
  allowed :: bool
  remaining :: int

text \<open>The cleaning loop: every entry older than the window start is deleted.\<close>

definition cleanOld :: "int \<Rightarrow> rl_store \<Rightarrow> rl_store" where
  "cleanOld windowStart st =
     (\<lambda>key. case st key of
               None \<Rightarrow> None
             | Some data \<Rightarrow> if timestamp data < windowStart then None else Some data)"

definition checkRateLimit :: "int \<Rightarrow> string \<Rightarrow> rl_store \<Rightarrow> rl_result \<times> rl_store" where
  "checkRateLimit now ip st =
     (let windowStart = now - RATE_LIMIT_WINDOW_MS;
          st1 = cleanOld windowStart st
      in case st1 ip of
           None \<Rightarrow>
             (\<lparr>allowed = True, remaining = RATE_LIMIT_MAX_REQUESTS - 1\<rparr>,
              st1(ip \<mapsto> \<lparr>count = 1, timestamp = now\<rparr>))
         | Some clientData \<Rightarrow>
             if timestamp clientData < windowStart then
               (\<lparr>allowed = True, remaining = RATE_LIMIT_MAX_REQUESTS - 1\<rparr>,
                st1(ip \<mapsto> \<lparr>count = 1, timestamp = now\<rparr>))
             else if count clientData \<ge> RATE_LIMIT_MAX_REQUESTS then
               (\<lparr>allowed = False, remaining = 0\<rparr>, st1)
             else
               (\<lparr>allowed = True,
                 remaining = RATE_LIMIT_MAX_REQUESTS - (count clientData + 1)\<rparr>,
                st1(ip \<mapsto> clientData\<lparr>count := count clientData + 1\<rparr>)))"

text \<open>A history of checks, each with its clock reading and caller, run in order against
  the store; the decisions come back in the same order.\<close>

type_synonym rl_event = "int \<times> string"

fun run_checks :: "rl_store \<Rightarrow> rl_event list \<Rightarrow> rl_result list \<times> rl_store" where
  "run_checks st [] = ([], st)"
| "run_checks st ((now, ip) # es) =
     (case checkRateLimit now ip st of
        (r, st') \<Rightarrow> (case run_checks st' es of (rs, st'') \<Rightarrow> (r # rs, st'')))"

text \<open>The decisions that went to one caller.\<close>

definition decisions_for :: "string \<Rightarrow> rl_event list \<Rightarrow> rl_result list \<Rightarrow> rl_result list" where
  "decisions_for ip es rs = map snd (filter (\<lambda>(e, r). snd e = ip) (zip es rs))"

text \<open>How many checks of a caller lie in the span of clock readings from \<open>lo\<close> to \<open>hi\<close>,
  both ends included.\<close>

definition checks_between :: "string \<Rightarrow> int \<Rightarrow> int \<Rightarrow> rl_event list \<Rightarrow> nat" where
  "checks_between ip lo hi es =
     length (filter (\<lambda>e. snd e = ip \<and> lo \<le> fst e \<and> fst e \<le> hi) es)"

definition checks_of :: "string \<Rightarrow> rl_event list \<Rightarrow> nat" where
  "checks_of ip es = length (filter (\<lambda>e. snd e = ip) es)"

text \<open>No caller-side span of 60 seconds, opened by one of the caller's own checks and
  closed 60000 ms later (inclusive), holds more than ten of the caller's checks.\<close>

definition at_most_ten_per_span :: "string \<Rightarrow> rl_event list \<Rightarrow> bool" where
  "at_most_ten_per_span ip es =
     list_all (\<lambda>e. snd e = ip \<longrightarrow>
                 checks_between ip (fst e) (fst e + RATE_LIMIT_WINDOW_MS) es \<le> 10) es"

text \<open>The decision the \<open>k\<close>-th check of a fixed window gets, and the entry the store
  holds after \<open>n\<close> checks in a window opened at \<open>t1\<close>.\<close>

definition verdict :: "nat \<Rightarrow> rl_result" where
  "verdict k = \<lparr>allowed = (int k \<le> RATE_LIMIT_MAX_REQUESTS),
                 remaining = max 0 (RATE_LIMIT_MAX_REQUESTS - int k)\<rparr>"

definition window_entry :: "nat \<Rightarrow> int \<Rightarrow> rl_entry" where
  "window_entry n t1 = \<lparr>count = min (int n) RATE_LIMIT_MAX_REQUESTS, timestamp = t1\<rparr>"

text \<open>Invariant of a caller's entry along a history: it was opened by one of the caller's
  checks, and counts no more checks than the caller made since.\<close>

definition entry_ok :: "string \<Rightarrow> rl_event list \<Rightarrow> rl_store \<Rightarrow> bool" where
  "entry_ok ip es st =
     (case st ip of
        None \<Rightarrow> True
      | Some d \<Rightarrow> (timestamp d, ip) \<in> set es \<and>
                  count d \<le> int (length (filter (\<lambda>e. snd e = ip \<and> timestamp d \<le> fst e) es)))"

text \<open>A burst across two fixed windows: one check at 0, nine just before the minute is
  over, two just after it.\<close>

definition burst :: "rl_event list" where
  "burst = [(0, ''a''), (59991, ''a''), (59992, ''a''), (59993, ''a''), (59994, ''a''),
            (59995, ''a''), (59996, ''a''), (59997, ''a''), (59998, ''a''), (59999, ''a''),
            (60001, ''a''), (60002, ''a'')]"

text \<open>Two small histories: three checks of one caller spread over more than a minute,
  with another caller in between; and eleven checks of one caller within ten seconds.\<close>

definition calm :: "rl_event list" where
  "calm = [(0, ''a''), (1000, ''b''), (2000, ''a''), (70000, ''a'')]"

definition eleven :: "rl_event list" where
  "eleven = [(0, ''a''), (1000, ''a''), (2000, ''a''), (3000, ''b''), (4000, ''a''),
             (5000, ''a''), (6000, ''a''), (7000, ''a''), (8000, ''a''), (9000, ''a''),
             (9500, ''a''), (10000, ''a'')]"

text \<open>Ten checks of one caller in the first ten milliseconds and an eleventh exactly
  60000 ms, or 60001 ms, after the first.\<close>

definition ten_then :: "int \<Rightarrow> rl_event list" where
  "ten_then t = [(0, ''a''), (1, ''a''), (2, ''a''), (3, ''a''), (4, ''a''), (5, ''a''),
                 (6, ''a''), (7, ''a''), (8, ''a''), (9, ''a''), (t, ''a'')]"

section \<open>Field validation and sanitization\<close>

text \<open>The form fields, a plain object filled by \<^verbatim>\<open>fields[key] = value\<close>: an
  association list in the order in which the keys were first written; a later value of a
  key replaces the earlier one in place.\<close>

type_synonym fields = "(string \<times> string) list"

text \<open>Case folding of the \<^verbatim>\<open>i\<close> flag: a code unit and its upper case are the same; only
  the ASCII letters fold onto ASCII letters.\<close>

definition canon :: "char \<Rightarrow> char" where
  "canon c = (let n = (of_char c :: nat) in
              if 97 \<le> n \<and> n \<le> 122 then char_of (n - 32) else c)"

fun startsWith_ci :: "string \<Rightarrow> string \<Rightarrow> bool" where
  "startsWith_ci s [] = True"
| "startsWith_ci [] (p # ps) = False"
| "startsWith_ci (c # cs) (p # ps) = (canon c = canon p \<and> startsWith_ci cs ps)"

definition is_letter :: "char \<Rightarrow> bool" where
  "is_letter c = (let n = (of_char c :: nat) in (65 \<le> n \<and> n \<le> 90) \<or> (97 \<le> n \<and> n \<le> 122))"

definition is_digit :: "char \<Rightarrow> bool" where
  "is_digit c = (let n = (of_char c :: nat) in 48 \<le> n \<and> n \<le> 57)"

text \<open>The class \<^verbatim>\<open>\w\<close>, which decides the word boundary \<^verbatim>\<open>\b\<close>.\<close>

definition is_word_char :: "char \<Rightarrow> bool" where
  "is_word_char c = (is_letter c \<or> is_digit c \<or> c = CHR ''_'')"

text \<open>
  The first replacement of the sanitizer,
  \<^verbatim>\<open>/<script\b[^<]*(?:(?!<\/script>)<[^<]*)*<\/script>/gi\<close>.
  After \<^verbatim>\<open><script\<close> and the word boundary, the two starred parts run over every code unit
  up to the next \<^verbatim>\<open><\<close> that opens \<^verbatim>\<open></script>\<close> (a \<^verbatim>\<open><\<close> that does not open it is
  taken by the group, one that does stops the group), and backing off never helps, because
  the closing tag has to start at a \<^verbatim>\<open><\<close> the group refused. So a match starting at an
  opening tag ends with the first closing tag after it. \<open>after_close\<close> gives what follows
  that closing tag.
\<close>

fun after_close :: "string \<Rightarrow> string option" where
  "after_close [] = None"
| "after_close (c # cs) =
     (if startsWith_ci (c # cs) ''</script>'' then Some (drop 9 (c # cs))
      else after_close cs)"

text \<open>A match at the very start of the input: what is left after it.\<close>

definition match_script :: "string \<Rightarrow> string option" where
  "match_script s =
     (if startsWith_ci s ''<script'' then
        (case drop 7 s of
           [] \<Rightarrow> None
         | c # cs \<Rightarrow> if is_word_char c then None else after_close (c # cs))
      else None)"

text \<open>The global replacement by the empty string: matches are taken from left to right,
  and the search goes on behind each match.\<close>

function strip_scripts :: "string \<Rightarrow> string" where
  "strip_scripts [] = []"
| "strip_scripts (c # cs) =
     (case match_script (c # cs) of
        Some rest \<Rightarrow> strip_scripts rest
      | None \<Rightarrow> c # strip_scripts cs)"
  by pat_completeness auto

lemma after_close_shorter: "after_close s = Some rest \<Longrightarrow> length rest < length s"
  by (induction s) (auto split: if_splits)

lemma match_script_shorter: "match_script s = Some rest \<Longrightarrow> length rest < length s"
proof -
  assume m: "match_script s = Some rest"
  then obtain c cs where d: "drop 7 s = c # cs" and a: "after_close (c # cs) = Some rest"
    by (auto simp: match_script_def split: if_splits list.splits)
  from a have "length rest < length (drop 7 s)"
    unfolding d by (rule after_close_shorter)
  then show ?thesis by simp
qed

termination strip_scripts
  by (relation "measure length") (auto dest: match_script_shorter)

text \<open>\<^verbatim>\<open>.replace(/[<>]/g, '')\<close>\<close>

definition strip_angles :: "string \<Rightarrow> string" where
  "strip_angles s = filter (\<lambda>c. c \<noteq> CHR ''<'' \<and> c \<noteq> CHR ''>'') s"

text \<open>The chain applied to every string field:
  \<^verbatim>\<open>value.replace(script).replace(angles).trim().substring(0, 10000)\<close>.\<close>

definition sanitize :: "string \<Rightarrow> string" where
  "sanitize v = take 10000 (trim (strip_angles (strip_scripts v)))"

text \<open>\<^verbatim>\<open>/^[^\s@]+@[^\s@]+\.[^\s@]+$/\<close>: a non-empty local part, the first \<^verbatim>\<open>@\<close>, and a
  rest with a dot that has something on both sides; no white space and no second \<^verbatim>\<open>@\<close>.\<close>

definition email_ok :: "string \<Rightarrow> bool" where
  "email_ok s =
     (let local_part = takeWhile (\<lambda>c. c \<noteq> CHR ''@'') s;
          rest = dropWhile (\<lambda>c. c \<noteq> CHR ''@'') s
      in local_part \<noteq> [] \<and> list_all (\<lambda>c. \<not> is_space c) local_part \<and>
         (case rest of
            [] \<Rightarrow> False
          | _ # domain \<Rightarrow>
              list_all (\<lambda>c. \<not> is_space c \<and> c \<noteq> CHR ''@'') domain \<and>
              CHR ''.'' \<in> set (butlast (tl domain))))"

text \<open>An assignment to a plain object: the key \<^verbatim>\<open>__proto__\<close> reaches the setter of
  the prototype, which ignores a string, so no property is written.\<close>

definition set_field :: "string \<Rightarrow> string \<Rightarrow> fields \<Rightarrow> fields" where
  "set_field k v flds = (if k = ''__proto__'' then flds else AList.update k v flds)"

text \<open>\<^verbatim>\<open>Object.entries\<close> lists the keys that are array indices first (canonical decimal
  numerals below \<open>2\<^sup>3\<^sup>2 - 1\<close>), in ascending order, then the other keys in the order
  they were written.\<close>

definition dec_value :: "string \<Rightarrow> nat" where
  "dec_value k = foldl (\<lambda>a c. 10 * a + (of_char c - 48)) 0 k"

definition is_array_index :: "string \<Rightarrow> bool" where
  "is_array_index k =
     (k \<noteq> [] \<and> list_all is_digit k \<and> (k = ''0'' \<or> hd k \<noteq> CHR ''0'') \<and>
      dec_value k < 4294967295)"

definition object_entries :: "fields \<Rightarrow> fields" where
  "object_entries obj =
     sort_key (\<lambda>e. dec_value (fst e)) (filter (\<lambda>e. is_array_index (fst e)) obj) @
     filter (\<lambda>e. \<not> is_array_index (fst e)) obj"

definition validateFormData :: "fields \<Rightarrow> string list \<times> fields" where
  "validateFormData body =
     (let get = map_of body;
          e1 = (if \<not> truthy (get ''propertyName'')
                   \<or> length (trim (or_else (get ''propertyName'') '''')) < 2
                then [''Property Name is required and must be at least 2 characters'']
                else []);
          e2 = (if \<not> truthy (get ''propertyType'')
                then [''Property Type is required''] else []);
          e3 = (if \<not> truthy (get ''submitterName'')
                   \<or> length (trim (or_else (get ''submitterName'') '''')) < 2
                then [''Your Name is required and must be at least 2 characters'']
                else []);
          e4 = (if \<not> truthy (get ''submitterPhone'')
                then [''Your Phone is required''] else []);
          e5 = (if \<not> truthy (get ''submitterEmail'')
                then [''Your Email is required'']
                else if \<not> email_ok (or_else (get ''submitterEmail'') '''')
                then [''Invalid email format''] else []);
          e6 = (if get ''finalAcknowledgement'' \<noteq> Some ''true''
                then [''Final acknowledgement is required''] else []);
          sanitizedBody = map (\<lambda>(key, value). (key, sanitize value)) (object_entries body)
      in (e1 @ e2 @ e3 @ e4 @ e5 @ e6, sanitizedBody))"

text \<open>An input whose sanitized form is cut in front of a blank.\<close>

definition long_input :: string where
  "long_input = replicate 9999 (CHR ''a'') @ '' b''"

section \<open>Storage upload\<close>

text \<open>\<^verbatim>\<open>String(n)\<close> of an integer and \<^verbatim>\<open>b.toString(16).padStart(2, '0')\<close> of a byte.\<close>

definition digit_char :: "nat \<Rightarrow> char" where
  "digit_char d = ''0123456789abcdef'' ! d"

function toString_radix :: "nat \<Rightarrow> nat \<Rightarrow> string" where
  "toString_radix r n =
     (if r < 2 \<or> n < r then [digit_char n]
      else toString_radix r (n div r) @ [digit_char (n mod r)])"
  by pat_completeness auto

termination toString_radix
  by (relation "measure snd") auto

declare toString_radix.simps [simp del]

definition String_int :: "int \<Rightarrow> string" where
  "String_int i = (if i < 0 then CHR ''-'' # toString_radix 10 (nat (- i))
                   else toString_radix 10 (nat i))"

definition padStart2 :: "string \<Rightarrow> string" where
  "padStart2 s = replicate (2 - length s) (CHR ''0'') @ s"

text \<open>\<^verbatim>\<open>crypto.getRandomValues(new Uint8Array(8))\<close> fills the eight cells; the model reads
  them from \<open>rnd\<close>.\<close>

definition randomId :: "(nat \<Rightarrow> 8 word) \<Rightarrow> string" where
  "randomId rnd = concat (map (\<lambda>i. padStart2 (toString_radix 16 (unat (rnd i)))) [0..<8])"

text \<open>\<^verbatim>\<open>filename.replace(/[^a-zA-Z0-9.-]/g, '_').substring(0, 100)\<close>\<close>

definition keeps :: "char \<Rightarrow> bool" where
  "keeps c = (is_letter c \<or> is_digit c \<or> c = CHR ''.'' \<or> c = CHR ''-'')"

definition sanitizedName :: "string \<Rightarrow> string" where
  "sanitizedName filename = take 100 (map (\<lambda>c. if keeps c then c else CHR ''_'') filename)"

definition filePath :: "int \<Rightarrow> (nat \<Rightarrow> 8 word) \<Rightarrow> string \<Rightarrow> string" where
  "filePath ts rnd filename =
     ''uploads/'' @ String_int ts @ ''-'' @ randomId rnd @ ''-'' @ sanitizedName filename"

definition is_hex :: "char \<Rightarrow> bool" where
  "is_hex c = (c \<in> set ''0123456789abcdef'')"

text \<open>What one call of \<^verbatim>\<open>fetch\<close> does: the promise rejects (the network fails, or
  \<^verbatim>\<open>fetch\<close> refuses the URL or a header value), or a response with a status and a body
  arrives. \<^verbatim>\<open>response.ok\<close> is a status from 200 to 299.\<close>

datatype fetch_reply = NetworkError string | Reply nat string

definition ok_status :: "nat \<Rightarrow> bool" where
  "ok_status s = (200 \<le> s \<and> s \<le> 299)"

type_synonym bytes = "8 word list"

record upload_result =
  category :: string
  orig_name :: string
  url :: string
  key :: string

record payload =
  form_fields :: fields
  serverTimestamp :: int
  serverProcessed :: bool
  clientIp :: string
  files :: "(string \<times> string \<times> string) list"
  fileUrls :: "string list"

text \<open>The calls of \<^verbatim>\<open>fetch\<close> the handler makes: for the storage (URL, bearer
  token, content type, body) and for the webhook (URL, JSON document).\<close>

datatype effect =
  StoragePost string string string bytes
| WebhookPost string payload

text \<open>
  \<open>uploadToSupabase\<close> with the three module constants, the clock reading and the random
  cells as arguments. The request is made in any case; a rejected \<^verbatim>\<open>fetch\<close> and a
  response that is not ok both end in an exception, here \<open>Inl\<close> with its message.
\<close>

definition uploadToSupabase ::
  "string \<Rightarrow> string \<Rightarrow> string \<Rightarrow> int \<Rightarrow> (nat \<Rightarrow> 8 word) \<Rightarrow> fetch_reply \<Rightarrow>
   bytes \<Rightarrow> string \<Rightarrow> string \<Rightarrow> string \<Rightarrow> effect \<times> (string + upload_result)" where
  "uploadToSupabase supabase_url service_key bucket ts rnd reply
                    fileBuffer filename mimetype cat =
     (let path = filePath ts rnd filename;
          uploadUrl = supabase_url @ ''/storage/v1/object/'' @ bucket @ ''/'' @ path;
          request = StoragePost uploadUrl (''Bearer '' @ service_key) mimetype fileBuffer
      in (request,
          case reply of
            NetworkError msg \<Rightarrow> Inl msg
          | Reply st body \<Rightarrow>
              if \<not> ok_status st then
                Inl (''Storage upload failed: '' @ String_int (int st) @ '' - '' @ body)
              else
                Inr \<lparr>category = cat, orig_name = filename,
                     url = supabase_url @ ''/storage/v1/object/public/'' @ bucket @ ''/'' @ path,
                     key = path\<rparr>))"

section \<open>Multipart parsing\<close>

record js_file =
  file_name :: string
  file_type :: string
  file_size :: nat
  file_bytes :: bytes

datatype form_value = Text string | FileValue js_file

record parsed_file =
  fieldname :: string
  originalname :: string
  mimetype :: string
  size_f :: nat
  buffer :: bytes

text \<open>The loop over \<^verbatim>\<open>formData.entries()\<close>: the first file that breaks a rule throws.\<close>

fun parse_entries ::
  "(string \<times> form_value) list \<Rightarrow> fields \<Rightarrow> parsed_file list
   \<Rightarrow> string + (fields \<times> parsed_file list)" where
  "parse_entries [] flds fs = Inr (flds, fs)"
| "parse_entries ((k, FileValue v) # es) flds fs =
     (if file_size v > MAX_FILE_SIZE then
        Inl (''File '' @ file_name v @ '' exceeds maximum size of 25MB'')
      else if file_type v \<notin> set ALLOWED_MIME_TYPES then
        Inl (''File type '' @ file_type v @ '' is not allowed for '' @ file_name v)
      else if k \<notin> set ALLOWED_FILE_CATEGORIES then
        Inl (''Invalid file category: '' @ k)
      else
        parse_entries es flds
          (fs @ [\<lparr>fieldname = k, originalname = file_name v, mimetype = file_type v,
                  size_f = file_size v, buffer = file_bytes v\<rparr>]))"
| "parse_entries ((k, Text v) # es) flds fs = parse_entries es (set_field k v flds) fs"

text \<open>The request as the handler reads it. \<open>form_data\<close> is what \<^verbatim>\<open>request.formData()\<close>
  gives: the entries in order, or the message of the error it throws on a body it cannot
  read.\<close>

record request =
  req_method :: string
  origin_header :: "string option"
  x_forwarded_for :: "string option"
  x_real_ip :: "string option"
  content_type :: "string option"
  form_data :: "string + (string \<times> form_value) list"

definition parseMultipartFormData :: "request \<Rightarrow> string + (fields \<times> parsed_file list)" where
  "parseMultipartFormData req =
     (if \<not> str_includes (or_else (content_type req) '''') ''multipart/form-data'' then
        Inl ''Invalid content type. Expected multipart/form-data''
      else (case form_data req of
              Inl msg \<Rightarrow> Inl msg
            | Inr entries \<Rightarrow> parse_entries entries [] []))"


section \<open>Responses\<close>

record resp_body =
  success :: bool
  message :: "string option"
  error :: "string option"
  details :: "string list option"
  retryAfter :: "nat option"

record response =
  status :: nat
  resp_headers :: headers
  body :: "resp_body option"

definition failure :: "string \<Rightarrow> resp_body" where
  "failure msg = \<lparr>success = False, message = None, error = Some msg, details = None,
                  retryAfter = None\<rparr>"

text \<open>What a constructor or a call can throw.\<close>

datatype exn = TypeError | RangeError

text \<open>
  \<^verbatim>\<open>new Response(body, {status, headers})\<close> is not total. Every header value is first
  normalized (HTTP white space, that is TAB, LF, CR and SPACE, is removed at both ends);
  a name that is not a token, or a normalized value that holds NUL, LF or CR, makes the
  constructor throw a \<^verbatim>\<open>TypeError\<close>. A status outside 200 to 599 is a
  \<^verbatim>\<open>RangeError\<close>, and a body with a status that admits none is a \<^verbatim>\<open>TypeError\<close>. The
  response lists the headers under the names as the source writes them.
\<close>

definition http_space :: "char \<Rightarrow> bool" where
  "http_space c = (of_char c \<in> {9, 10, 13, 32 :: nat})"

definition normalize_value :: "string \<Rightarrow> string" where
  "normalize_value v = rev (dropWhile http_space (rev (dropWhile http_space v)))"

definition legal_value :: "string \<Rightarrow> bool" where
  "legal_value v = list_all (\<lambda>c. of_char c \<notin> {0, 10, 13 :: nat}) v"

definition is_tchar :: "char \<Rightarrow> bool" where
  "is_tchar c = (is_letter c \<or> is_digit c \<or>
     of_char c \<in> {33, 35, 36, 37, 38, 39, 42, 43, 45, 46, 94, 95, 96, 124, 126 :: nat})"

definition is_token :: "string \<Rightarrow> bool" where
  "is_token n = (n \<noteq> [] \<and> list_all is_tchar n)"

fun fill_headers :: "headers \<Rightarrow> exn + headers" where
  "fill_headers [] = Inr []"
| "fill_headers ((name, v) # hs) =
     (if \<not> is_token name \<or> \<not> legal_value (normalize_value v) then Inl TypeError
      else (case fill_headers hs of
              Inl e \<Rightarrow> Inl e
            | Inr filled \<Rightarrow> Inr ((name, normalize_value v) # filled)))"

definition null_body_status :: "nat \<Rightarrow> bool" where
  "null_body_status s = (s \<in> {101, 103, 204, 205, 304})"

definition Response_new :: "resp_body option \<Rightarrow> nat \<Rightarrow> headers \<Rightarrow> exn + response" where
  "Response_new b st hs =
     (if st < 200 \<or> 599 < st then Inl RangeError
      else (case fill_headers hs of
              Inl e \<Rightarrow> Inl e
            | Inr filled \<Rightarrow>
                if b \<noteq> None \<and> null_body_status st then Inl TypeError
                else Inr \<lparr>status = st, resp_headers = filled, body = b\<rparr>))"

section \<open>The handler\<close>

text \<open>The readings one invocation takes from outside: the clock in \<open>checkRateLimit\<close>, the
  clock, the random cells and the storage's answer of each upload (numbered from 0), the
  clock of the payload, and the webhook's answer.\<close>

record world =
  now_ms :: int
  upload_now :: "nat \<Rightarrow> int"
  upload_random :: "nat \<Rightarrow> nat \<Rightarrow> 8 word"
  storage_reply :: "nat \<Rightarrow> fetch_reply"
  server_now :: int
  webhook_reply :: fetch_reply

text \<open>\<^verbatim>\<open>x-forwarded-for?.split(',')[0]?.trim() || x-real-ip || 'unknown'\<close>\<close>

definition clientIpOf :: "request \<Rightarrow> string" where
  "clientIpOf req =
     (let forwarded = map_option (\<lambda>h. trim (hd (split_comma h))) (x_forwarded_for req)
      in if truthy forwarded then or_else forwarded ''''
         else or_else (x_real_ip req) ''unknown'')"

text \<open>The upload loop: one upload after the other, in the order of the parts; the first
  failure ends the loop with the name of the file.\<close>

fun upload_files ::
  "config \<Rightarrow> world \<Rightarrow> nat \<Rightarrow> parsed_file list \<Rightarrow> upload_result list \<Rightarrow> effect list
   \<Rightarrow> effect list \<times> (string + upload_result list)" where
  "upload_files cfg w i [] uploadedFiles sent = (sent, Inr uploadedFiles)"
| "upload_files cfg w i (f # fs) uploadedFiles sent =
     (case uploadToSupabase (or_else (SUPABASE_URL cfg) '''')
             (or_else (SUPABASE_SERVICE_KEY cfg) '''') (SUPABASE_BUCKET cfg)
             (upload_now w i) (upload_random w i) (storage_reply w i)
             (buffer f) (originalname f) (mimetype f) (fieldname f) of
        (request, Inl uploadError) \<Rightarrow> (sent @ [request], Inl (originalname f))
      | (request, Inr result) \<Rightarrow>
          upload_files cfg w (Suc i) fs (uploadedFiles @ [result]) (sent @ [request]))"

text \<open>The keys the payload literal writes after the spread of the sanitized body: they
  win over form fields of the same name.\<close>

definition payload_keys :: "string list" where
  "payload_keys = [''serverTimestamp'', ''serverProcessed'', ''clientIp'', ''files'', ''fileUrls'']"

definition files_by_category :: "upload_result list \<Rightarrow> (string \<times> string \<times> string) list" where
  "files_by_category uploadedFiles =
     fold (\<lambda>f acc. AList.update (category f) (orig_name f, url f) acc) uploadedFiles []"

definition webhookPayload :: "fields \<Rightarrow> int \<Rightarrow> string \<Rightarrow> upload_result list \<Rightarrow> payload" where
  "webhookPayload sanitizedBody t ip uploadedFiles =
     \<lparr>form_fields = filter (\<lambda>(k, v). k \<notin> set payload_keys) sanitizedBody,
      serverTimestamp = t,
      serverProcessed = True,
      clientIp = take 45 ip,
      files = files_by_category uploadedFiles,
      fileUrls = map url uploadedFiles\<rparr>"

text \<open>The steps after a successful parse: validation, uploads, relay. \<open>Inl\<close> is an
  exception that leaves the step: a response that cannot be constructed, or the rejected
  \<^verbatim>\<open>fetch\<close> of the webhook.\<close>

definition process_submission ::
  "config \<Rightarrow> world \<Rightarrow> headers \<Rightarrow> string \<Rightarrow> rl_result \<Rightarrow> fields \<Rightarrow> parsed_file list
   \<Rightarrow> (exn + response) \<times> effect list" where
  "process_submission cfg w corsHeaders ip rateLimit flds fs =
     (case validateFormData flds of (errors0, sanitizedBody) \<Rightarrow>
      let errors = errors0 @
            (if ''financialInfo'' \<notin> set (map fieldname fs)
             then [''Financial Information document is required''] else [])
      in if length errors > 0 then
           (Response_new
              (Some ((failure ''Validation failed'')\<lparr>details := Some errors\<rparr>))
              400 corsHeaders, [])
         else
           (case upload_files cfg w 0 fs [] [] of
              (sent, Inl failed) \<Rightarrow>
                (Response_new (Some (failure (''Failed to upload file: '' @ failed)))
                   500 corsHeaders, sent)
            | (sent, Inr uploadedFiles) \<Rightarrow>
                let post = WebhookPost (or_else (WEBHOOK_URL cfg) '''')
                             (webhookPayload sanitizedBody (server_now w) ip uploadedFiles)
                in (case webhook_reply w of
                      NetworkError msg \<Rightarrow> (Inl TypeError, sent @ [post])
                    | Reply st webhookBody \<Rightarrow>
                        if \<not> ok_status st then
                          (Response_new
                             (Some (failure
                                ''Failed to process submission. Please try again.''))
                             502 corsHeaders, sent @ [post])
                        else
                          (Response_new
                             (Some \<lparr>success = True,
                                message = Some ''Submission received successfully'',
                                error = None, details = None, retryAfter = None\<rparr>)
                             200
                             (corsHeaders @
                                [(''X-RateLimit-Remaining'',
                                  String_int (remaining rateLimit))]),
                           sent @ [post]))))"

text \<open>The body of the handler's \<^verbatim>\<open>try\<close>.\<close>

definition handler_try ::
  "config \<Rightarrow> world \<Rightarrow> rl_store \<Rightarrow> request \<Rightarrow> headers
   \<Rightarrow> (exn + response) \<times> rl_store \<times> effect list" where
  "handler_try cfg w store req corsHeaders =
     (case checkRateLimit (now_ms w) (clientIpOf req) store of (rateLimit, store') \<Rightarrow>
      if \<not> allowed rateLimit then
        (Response_new
           (Some ((failure ''Too many requests. Please try again later.'')
                    \<lparr>retryAfter := Some 60\<rparr>))
           429
           (corsHeaders @ [(''Retry-After'', ''60''), (''X-RateLimit-Remaining'', ''0'')]),
         store', [])
      else if \<not> truthy (WEBHOOK_URL cfg) then
        (Response_new (Some (failure ''Server configuration error'')) 500 corsHeaders,
         store', [])
      else if \<not> truthy (SUPABASE_URL cfg) \<or> \<not> truthy (SUPABASE_SERVICE_KEY cfg) then
        (Response_new (Some (failure ''Storage configuration error'')) 500 corsHeaders,
         store', [])
      else
        (case parseMultipartFormData req of
           Inl parseError \<Rightarrow>
             (Response_new (Some (failure parseError)) 400 corsHeaders, store', [])
         | Inr (flds, fs) \<Rightarrow>
             (case process_submission cfg w corsHeaders (clientIpOf req)
                     rateLimit flds fs of
                (result, sent) \<Rightarrow> (result, store', sent))))"

text \<open>
  The exported handler. It gives the response it returns, or the exception it ends with
  (the promise rejects), together with the rate-limit store it leaves and the calls of
  \<^verbatim>\<open>fetch\<close> it made. The preflight and the method check lie outside the \<^verbatim>\<open>try\<close>; an
  exception inside it reaches the \<^verbatim>\<open>catch\<close>, whose own response is constructed with the
  same CORS headers. The lines written to the console are left out.
\<close>

definition handler ::
  "config \<Rightarrow> world \<Rightarrow> rl_store \<Rightarrow> request
   \<Rightarrow> (exn + response) \<times> rl_store \<times> effect list" where
  "handler cfg w store req =
     (let origin = or_else (origin_header req) '''';
          corsHeaders = getCorsHeaders cfg origin
      in if req_method req = ''OPTIONS'' then
           (Response_new None 204 corsHeaders, store, [])
         else if req_method req \<noteq> ''POST'' then
           (Response_new (Some (failure ''Method not allowed'')) 405 corsHeaders, store, [])
         else
           (case handler_try cfg w store req corsHeaders of
              (Inr resp, store', sent) \<Rightarrow> (Inr resp, store', sent)
            | (Inl thrown, store', sent) \<Rightarrow>
                (Response_new
                   (Some (failure ''An unexpected error occurred. Please try again.''))
                   500 corsHeaders,
                 store', sent)))"

section \<open>Auxiliary predicates and sample inputs\<close>

text \<open>A storage answer that lets the upload succeed.\<close>

definition upload_succeeds :: "fetch_reply \<Rightarrow> bool" where
  "upload_succeeds r = (case r of NetworkError msg \<Rightarrow> False | Reply st b \<Rightarrow> ok_status st)"



text \<open>The request got as far as parsing: a POST of a caller the limiter lets through, on
  a configured deployment.\<close>

definition reaches_parsing :: "config \<Rightarrow> world \<Rightarrow> rl_store \<Rightarrow> request \<Rightarrow> bool" where
  "reaches_parsing cfg w store req =
     (req_method req = ''POST'' \<and>
      allowed (fst (checkRateLimit (now_ms w) (clientIpOf req) store)) \<and>
      truthy (WEBHOOK_URL cfg) \<and> truthy (SUPABASE_URL cfg) \<and>
      truthy (SUPABASE_SERVICE_KEY cfg))"

text \<open>The last upload of a category, as the payload's \<open>files\<close> object should hold it.\<close>

definition last_of_category :: "string \<Rightarrow> upload_result list \<Rightarrow> (string \<times> string) option" where
  "last_of_category c us =
     (let vs = filter (\<lambda>u. category u = c) us
      in if vs = [] then None else Some (orig_name (last vs), url (last vs)))"

text \<open>The value the handler passes for \<open>Access-Control-Allow-Origin\<close> is one the
  response constructor accepts. The header value of a request always is; the value taken
  from the configured list is when the setting holds no NUL, LF or CR inside an origin.\<close>

definition cors_value_ok :: "config \<Rightarrow> request \<Rightarrow> bool" where
  "cors_value_ok cfg req =
     legal_value (normalize_value (allowOrigin cfg (or_else (origin_header req) '''')))"

text \<open>The CORS headers as a response carries them.\<close>

definition cors_response_headers :: "config \<Rightarrow> string \<Rightarrow> headers" where
  "cors_response_headers cfg origin =
     [(''Access-Control-Allow-Origin'', normalize_value (allowOrigin cfg origin)),
      (''Access-Control-Allow-Methods'', ''POST, OPTIONS''),
      (''Access-Control-Allow-Headers'', ''Content-Type, X-Requested-With''),
      (''Access-Control-Max-Age'', ''86400''),
      (''Content-Type'', ''application/json'')]"

text \<open>A configured deployment, one without any setting, and a well-formed submission.\<close>

definition cfg0 :: config where
  "cfg0 = \<lparr>WEBHOOK_URL = Some ''https://hooks.example/intake'',
           SUPABASE_URL = Some ''https://db.example'',
           SUPABASE_SERVICE_KEY = Some ''service-key'',
           SUPABASE_BUCKET_env = None,
           ALLOWED_ORIGINS_env = Some ''https://intake.example,https://www.intake.example''\<rparr>"

definition cfg_none :: config where
  "cfg_none = \<lparr>WEBHOOK_URL = None, SUPABASE_URL = None, SUPABASE_SERVICE_KEY = None,
               SUPABASE_BUCKET_env = None, ALLOWED_ORIGINS_env = None\<rparr>"

definition world0 :: world where
  "world0 = \<lparr>now_ms = 1700000000000,
             upload_now = (\<lambda>i. 1700000000100 + int i),
             upload_random = (\<lambda>i j. of_nat (16 * i + j)),
             storage_reply = (\<lambda>i. Reply 200 ''{}''),
             server_now = 1700000000200,
             webhook_reply = Reply 200 ''accepted''\<rparr>"

definition pdf :: "string \<Rightarrow> js_file" where
  "pdf n = \<lparr>file_name = n, file_type = ''application/pdf'', file_size = 4,
            file_bytes = [37, 80, 68, 70]\<rparr>"


definition text_entries :: "(string \<times> form_value) list" where
  "text_entries =
     [(''propertyName'', Text ''Oak Court''),
      (''propertyType'', Text ''Multifamily''),
      (''submitterName'', Text ''Ada Lovelace''),
      (''submitterPhone'', Text ''555-0100''),
      (''submitterEmail'', Text ''ada@example.org''),
      (''finalAcknowledgement'', Text ''true'')]"

definition post :: "(string \<times> form_value) list \<Rightarrow> request" where
  "post entries = \<lparr>req_method = ''POST'', origin_header = Some ''https://intake.example'',
                   x_forwarded_for = Some ''203.0.113.7, 10.0.0.1'', x_real_ip = None,
                   content_type = Some ''multipart/form-data; boundary=x'',
                   form_data = Inr entries\<rparr>"

definition preflight :: request where
  "preflight = \<lparr>req_method = ''OPTIONS'', origin_header = Some ''https://elsewhere.example'',
                x_forwarded_for = Some ''203.0.113.7'', x_real_ip = None,
                content_type = None, form_data = Inl ''no body''\<rparr>"

definition saturated :: rl_store where
  "saturated = [''203.0.113.7'' \<mapsto> \<lparr>count = 10, timestamp = 1699999990000\<rparr>]"

definition text_fields :: fields where
  "text_fields =
     [(''propertyName'', ''Oak Court''),
      (''propertyType'', ''Multifamily''),
      (''submitterName'', ''Ada Lovelace''),
      (''submitterPhone'', ''555-0100''),
      (''submitterEmail'', ''ada@example.org''),
      (''finalAcknowledgement'', ''true'')]"

definition parsed_pdf :: "string \<Rightarrow> string \<Rightarrow> parsed_file" where
  "parsed_pdf k n = \<lparr>fieldname = k, originalname = n, mimetype = ''application/pdf'',
                     size_f = 4, buffer = [37, 80, 68, 70]\<rparr>"



definition three_files :: request where
  "three_files = post (text_entries @
      [(''financialInfo'', FileValue (pdf ''fin.pdf'')), (''t12'', FileValue (pdf ''t12 a.pdf'')),
       (''t12'', FileValue (pdf ''t12 b.pdf''))])"


definition cfg_star :: config where
  "cfg_star = cfg0\<lparr>ALLOWED_ORIGINS_env := Some ''*''\<rparr>"

definition tagged :: string where
  "tagged = ''  <b>hi</b> <script>alert(1)</script> ok  ''"

text \<open>A deployment whose origin list is separated by a line feed instead of a comma, and
  one whose first origin has a blank in front.\<close>

definition cfg_lf :: config where
  "cfg_lf = cfg0\<lparr>ALLOWED_ORIGINS_env :=
     Some (''https://intake.example'' @ [CHR 0x0A] @ ''https://www.intake.example'')\<rparr>"

definition cfg_blank :: config where
  "cfg_blank = cfg0\<lparr>ALLOWED_ORIGINS_env := Some '' https://intake.example''\<rparr>"



text \<open>The calls and results of the three uploads of \<open>three_files\<close> in \<open>world0\<close>.\<close>

definition three_posts :: "effect list" where
  "three_posts =
     [StoragePost
        ''https://db.example/storage/v1/object/temp_files/uploads/1700000000100-0001020304050607-fin.pdf''
        ''Bearer service-key'' ''application/pdf'' [37, 80, 68, 70],
      StoragePost
        ''https://db.example/storage/v1/object/temp_files/uploads/1700000000101-1011121314151617-t12_a.pdf''
        ''Bearer service-key'' ''application/pdf'' [37, 80, 68, 70],
      StoragePost
        ''https://db.example/storage/v1/object/temp_files/uploads/1700000000102-2021222324252627-t12_b.pdf''
        ''Bearer service-key'' ''application/pdf'' [37, 80, 68, 70]]"

definition three_uploads :: "upload_result list" where
  "three_uploads =
     [\<lparr>category = ''financialInfo'', orig_name = ''fin.pdf'',
       url = ''https://db.example/storage/v1/object/public/temp_files/uploads/1700000000100-0001020304050607-fin.pdf'',
       key = ''uploads/1700000000100-0001020304050607-fin.pdf''\<rparr>,
      \<lparr>category = ''t12'', orig_name = ''t12 a.pdf'',
       url = ''https://db.example/storage/v1/object/public/temp_files/uploads/1700000000101-1011121314151617-t12_a.pdf'',
       key = ''uploads/1700000000101-1011121314151617-t12_a.pdf''\<rparr>,
      \<lparr>category = ''t12'', orig_name = ''t12 b.pdf'',
       url = ''https://db.example/storage/v1/object/public/temp_files/uploads/1700000000102-2021222324252627-t12_b.pdf'',
       key = ''uploads/1700000000102-2021222324252627-t12_b.pdf''\<rparr>]"

text \<open>What the claim on the uploads expects of the \<open>i\<close>-th upload, written from the
  attachment alone: the call, with the attachment's bytes and content type, to the
  storage path of its file name, and the result that names the public URL of that path.\<close>

definition expected_call ::
  "string \<Rightarrow> string \<Rightarrow> string \<Rightarrow> world \<Rightarrow> nat \<times> parsed_file \<Rightarrow> effect" where
  "expected_call su sk bucket w =
     (\<lambda>(i, f). StoragePost
        (su @ ''/storage/v1/object/'' @ bucket @ ''/'' @
           filePath (upload_now w i) (upload_random w i) (originalname f))
        (''Bearer '' @ sk) (mimetype f) (buffer f))"

definition expected_upload ::
  "string \<Rightarrow> string \<Rightarrow> world \<Rightarrow> nat \<times> parsed_file \<Rightarrow> upload_result" where
  "expected_upload su bucket w =
     (\<lambda>(i, f). \<lparr>category = fieldname f, orig_name = originalname f,
        url = su @ ''/storage/v1/object/public/'' @ bucket @ ''/'' @
                filePath (upload_now w i) (upload_random w i) (originalname f),
        key = filePath (upload_now w i) (upload_random w i) (originalname f)\<rparr>)"

section \<open>Properties of the rate limiter\<close>

lemma run_checks_append:
  "run_checks st (es @ es') =
     (case run_checks st es of (rs, st1) \<Rightarrow>
        (case run_checks st1 es' of (rs', st2) \<Rightarrow> (rs @ rs', st2)))"
  by (induction es arbitrary: st) (auto split: prod.splits)

lemma length_run_checks_aux: "run_checks st es = (rs, st') \<Longrightarrow> length rs = length es"
  by (induction es arbitrary: st rs st') (auto split: prod.splits)

lemma length_run_checks: "length (fst (run_checks st es)) = length es"
  by (cases "run_checks st es") (simp add: length_run_checks_aux)

lemma run_checks_snoc:
  "run_checks st (es @ [(now, ip)]) =
     (fst (run_checks st es) @ [fst (checkRateLimit now ip (snd (run_checks st es)))],
      snd (checkRateLimit now ip (snd (run_checks st es))))"
  by (simp add: run_checks_append split: prod.splits)

lemma decisions_for_snoc:
  "length rs = length es \<Longrightarrow>
   decisions_for ip (es @ [e]) (rs @ [r]) =
     decisions_for ip es rs @ (if snd e = ip then [r] else [])"
  by (simp add: decisions_for_def)

lemma checkRateLimit_other:
  "ip' \<noteq> ip \<Longrightarrow>
   snd (checkRateLimit now ip' st) ip = cleanOld (now - RATE_LIMIT_WINDOW_MS) st ip"
  by (simp add: checkRateLimit_def Let_def split: option.splits)

lemma checks_between_snoc_le:
  "checks_between ip lo hi es \<le> checks_between ip lo hi (es @ [x])"
  by (simp add: checks_between_def)

lemma at_most_ten_butlast:
  "at_most_ten_per_span ip (es @ [x]) \<Longrightarrow> at_most_ten_per_span ip es"
proof -
  assume a: "at_most_ten_per_span ip (es @ [x])"
  have "checks_between ip (fst e) (fst e + RATE_LIMIT_WINDOW_MS) es \<le> 10"
    if "e \<in> set es" "snd e = ip" for e
  proof -
    from a that have "checks_between ip (fst e) (fst e + RATE_LIMIT_WINDOW_MS) (es @ [x]) \<le> 10"
      by (simp add: at_most_ten_per_span_def list_all_iff)
    with checks_between_snoc_le [of ip "fst e" "fst e + RATE_LIMIT_WINDOW_MS" es x]
    show ?thesis by (rule order_trans)
  qed
  then show ?thesis
    by (simp add: at_most_ten_per_span_def list_all_iff)
qed

lemma entry_ok_cong: "st ip = st' ip \<Longrightarrow> entry_ok ip es st = entry_ok ip es st'"
  by (simp add: entry_ok_def)

lemma entry_ok_cleanOld: "entry_ok ip es st \<Longrightarrow> entry_ok ip es (cleanOld w st)"
  by (auto simp: entry_ok_def cleanOld_def split: option.splits)

lemma entry_ok_snoc: "entry_ok ip es st \<Longrightarrow> entry_ok ip (es @ [x]) st"
  by (auto simp: entry_ok_def split: option.splits)

lemma span_step:
  assumes ok: "entry_ok ip es st"
    and le: "\<forall>e\<in>set es. fst e \<le> now"
    and ten: "at_most_ten_per_span ip (es @ [(now, ip)])"
  shows "allowed (fst (checkRateLimit now ip st)) \<and>
         entry_ok ip (es @ [(now, ip)]) (snd (checkRateLimit now ip st))"
proof (cases "cleanOld (now - RATE_LIMIT_WINDOW_MS) st ip")
  case None
  then show ?thesis
    by (simp add: checkRateLimit_def Let_def entry_ok_def)
next
  case (Some d)
  have live: "\<not> timestamp d < now - RATE_LIMIT_WINDOW_MS" and std: "st ip = Some d"
    using Some by (auto simp: cleanOld_def split: option.splits if_splits)
  from ok std have mem: "(timestamp d, ip) \<in> set es"
    and cnt: "count d \<le> int (length (filter (\<lambda>e. snd e = ip \<and> timestamp d \<le> fst e) es))"
    by (auto simp: entry_ok_def)
  from mem le have t0: "timestamp d \<le> now" by fastforce
  have same: "filter (\<lambda>e. snd e = ip \<and> timestamp d \<le> fst e
                 \<and> fst e \<le> timestamp d + RATE_LIMIT_WINDOW_MS) es
              = filter (\<lambda>e. snd e = ip \<and> timestamp d \<le> fst e) es"
    using le live by (intro filter_cong) auto
  have span: "checks_between ip (timestamp d) (timestamp d + RATE_LIMIT_WINDOW_MS)
                (es @ [(now, ip)])
              = Suc (length (filter (\<lambda>e. snd e = ip \<and> timestamp d \<le> fst e) es))"
    using t0 live by (simp add: checks_between_def same)
  from ten mem
  have "checks_between ip (timestamp d) (timestamp d + RATE_LIMIT_WINDOW_MS)
          (es @ [(now, ip)]) \<le> 10"
    unfolding at_most_ten_per_span_def list_all_iff by fastforce
  with span cnt have small: "count d < RATE_LIMIT_MAX_REQUESTS"
    by (simp add: RATE_LIMIT_MAX_REQUESTS_def)
  show ?thesis
    using Some live small cnt mem t0
    by (simp add: checkRateLimit_def Let_def entry_ok_def)
qed

lemma span_invariant:
  assumes "sorted (map fst es)" "st ip = None" "at_most_ten_per_span ip es"
  shows "list_all allowed (decisions_for ip es (fst (run_checks st es))) \<and>
         entry_ok ip es (snd (run_checks st es))"
  using assms
proof (induction es rule: rev_induct)
  case Nil
  then show ?case by (simp add: decisions_for_def entry_ok_def)
next
  case (snoc x es)
  obtain now ip' where x: "x = (now, ip')" by (cases x)
  from snoc.prems(1) have srt: "sorted (map fst es)" and le: "\<forall>e\<in>set es. fst e \<le> now"
    by (auto simp: sorted_append x)
  from snoc.prems(3) have ten: "at_most_ten_per_span ip es"
    by (rule at_most_ten_butlast)
  from snoc.IH [OF srt snoc.prems(2) ten]
  have all: "list_all allowed (decisions_for ip es (fst (run_checks st es)))"
    and ok: "entry_ok ip es (snd (run_checks st es))" by auto
  show ?case
  proof (cases "ip' = ip")
    case True
    from span_step [OF ok le] snoc.prems(3) x True
    have "allowed (fst (checkRateLimit now ip (snd (run_checks st es))))"
      and "entry_ok ip (es @ [(now, ip)]) (snd (checkRateLimit now ip (snd (run_checks st es))))"
      by auto
    with all x True show ?thesis
      by (simp add: run_checks_snoc decisions_for_snoc length_run_checks)
  next
    case False
    have "entry_ok ip (es @ [x]) (cleanOld (now - RATE_LIMIT_WINDOW_MS) (snd (run_checks st es)))"
      using ok by (intro entry_ok_snoc entry_ok_cleanOld)
    then have "entry_ok ip (es @ [x]) (snd (checkRateLimit now ip' (snd (run_checks st es))))"
      using entry_ok_cong [of "snd (checkRateLimit now ip' (snd (run_checks st es)))" ip
          "cleanOld (now - RATE_LIMIT_WINDOW_MS) (snd (run_checks st es))" "es @ [x]"]
        checkRateLimit_other [OF False, of now "snd (run_checks st es)"] by simp
    with all x False show ?thesis
      by (simp add: run_checks_snoc decisions_for_snoc length_run_checks)
  qed
qed

lemma checks_of_snoc:
  "checks_of ip (es @ [e]) = (if snd e = ip then Suc (checks_of ip es) else checks_of ip es)"
  by (simp add: checks_of_def)

lemma window_open:
  "cleanOld (t1 - RATE_LIMIT_WINDOW_MS) st ip = None \<Longrightarrow>
   checkRateLimit t1 ip st =
     (verdict 1, (cleanOld (t1 - RATE_LIMIT_WINDOW_MS) st)(ip \<mapsto> window_entry 1 t1))"
  by (simp add: checkRateLimit_def Let_def verdict_def window_entry_def
      RATE_LIMIT_MAX_REQUESTS_def)

lemma window_step_same:
  assumes "st ip = Some (window_entry n t1)" "now \<le> t1 + RATE_LIMIT_WINDOW_MS"
  shows "fst (checkRateLimit now ip st) = verdict (Suc n) \<and>
         snd (checkRateLimit now ip st) ip = Some (window_entry (Suc n) t1)"
proof -
  have "cleanOld (now - RATE_LIMIT_WINDOW_MS) st ip = Some (window_entry n t1)"
    using assms by (simp add: cleanOld_def window_entry_def)
  then show ?thesis
    using assms(2)
    by (simp add: checkRateLimit_def Let_def verdict_def window_entry_def
        RATE_LIMIT_MAX_REQUESTS_def)
qed

lemma window_step_other:
  assumes "st ip = Some (window_entry n t1)" "now \<le> t1 + RATE_LIMIT_WINDOW_MS" "ip' \<noteq> ip"
  shows "snd (checkRateLimit now ip' st) ip = Some (window_entry n t1)"
  using assms by (simp add: checkRateLimit_other cleanOld_def window_entry_def)

lemma verdicts_Suc:
  "map verdict [Suc 0..<Suc (Suc n)] = map verdict [Suc 0..<Suc n] @ [verdict (Suc n)]"
  by simp

lemma window_snoc:
  assumes dec: "decisions_for ip es (fst (run_checks st es))
                  = map verdict [1..<Suc (checks_of ip es)]"
    and ent: "snd (run_checks st es) ip = Some (window_entry (checks_of ip es) t1)"
    and le: "now \<le> t1 + RATE_LIMIT_WINDOW_MS"
  shows "decisions_for ip (es @ [(now, ip')]) (fst (run_checks st (es @ [(now, ip')])))
           = map verdict [1..<Suc (checks_of ip (es @ [(now, ip')]))] \<and>
         snd (run_checks st (es @ [(now, ip')])) ip
           = Some (window_entry (checks_of ip (es @ [(now, ip')])) t1)"
proof (cases "ip' = ip")
  case True
  from window_step_same [of "snd (run_checks st es)" ip "checks_of ip es" t1 now, OF ent le]
  show ?thesis
    using dec True
    by (simp add: run_checks_snoc decisions_for_snoc length_run_checks checks_of_snoc
        verdicts_Suc del: upt_Suc)
next
  case False
  from window_step_other [of "snd (run_checks st es)" ip "checks_of ip es" t1 now ip',
      OF ent le False]
  show ?thesis
    using dec False
    by (simp add: run_checks_snoc decisions_for_snoc length_run_checks checks_of_snoc
        del: upt_Suc)
qed

lemma window_invariant:
  assumes "cleanOld (t1 - RATE_LIMIT_WINDOW_MS) st ip = None"
    and "\<forall>e\<in>set rest. fst e \<le> t1 + RATE_LIMIT_WINDOW_MS"
  shows "decisions_for ip ((t1, ip) # rest) (fst (run_checks st ((t1, ip) # rest)))
           = map verdict [1..<Suc (checks_of ip ((t1, ip) # rest))] \<and>
         snd (run_checks st ((t1, ip) # rest)) ip
           = Some (window_entry (checks_of ip ((t1, ip) # rest)) t1)"
  using assms(2)
proof (induction rest rule: rev_induct)
  case Nil
  show ?case
    using window_open [OF assms(1)] by (simp add: decisions_for_def checks_of_def)
next
  case (snoc x rest)
  obtain now ip' where x: "x = (now, ip')" by (cases x)
  from snoc.prems x have le: "now \<le> t1 + RATE_LIMIT_WINDOW_MS" by simp
  from snoc have dec: "decisions_for ip ((t1, ip) # rest) (fst (run_checks st ((t1, ip) # rest)))
           = map verdict [1..<Suc (checks_of ip ((t1, ip) # rest))]"
    and ent: "snd (run_checks st ((t1, ip) # rest)) ip
           = Some (window_entry (checks_of ip ((t1, ip) # rest)) t1)" by auto
  from window_snoc [OF dec ent le, of ip'] show ?case
    by (simp only: x append_Cons)
qed

text \<open>The window includes its last millisecond: a check read exactly 60000 ms after
  the opening one still counts in the old window, one read 60001 ms after it opens a new
  window.\<close>

lemma window_ends_inclusive:
  "last (fst (run_checks Map.empty (ten_then 60000))) = \<lparr>allowed = False, remaining = 0\<rparr> \<and>
   last (fst (run_checks Map.empty (ten_then 60001))) = \<lparr>allowed = True, remaining = 9\<rparr>"
  by (simp add: ten_then_def checkRateLimit_def Let_def cleanOld_def
      RATE_LIMIT_WINDOW_MS_def RATE_LIMIT_MAX_REQUESTS_def)

text \<open>
  C10. A denied check leaves the caller's entry as it was: when \<open>checkRateLimit\<close> answers
  \<open>allowed = False\<close>, the store it leaves holds for that caller the very entry it held
  before (same count, same window start), and \<open>remaining\<close> is 0. Being denied does not
  move the window.
\<close>

theorem denied_check_keeps_entry:
  assumes "checkRateLimit now ip st = (r, st')" and "\<not> allowed r"
  shows "st' ip = st ip \<and> st ip \<noteq> None \<and> remaining r = 0"
  using assms
  by (auto simp: checkRateLimit_def Let_def cleanOld_def split: option.splits if_splits)

theorem denied_check_keeps_entry_witness:
  "\<not> allowed (fst (checkRateLimit 30000 ''203.0.113.7''
        [''203.0.113.7'' \<mapsto> \<lparr>count = 10, timestamp = 0\<rparr>])) \<and>
   snd (checkRateLimit 30000 ''203.0.113.7''
        [''203.0.113.7'' \<mapsto> \<lparr>count = 10, timestamp = 0\<rparr>]) ''203.0.113.7''
     = Some \<lparr>count = 10, timestamp = 0\<rparr>"
proof -
  let ?st = "[''203.0.113.7'' \<mapsto> \<lparr>count = 10, timestamp = 0\<rparr>]"
  let ?res = "checkRateLimit 30000 ''203.0.113.7'' ?st"
  have denied: "\<not> allowed (fst ?res)"
    by (simp add: checkRateLimit_def Let_def cleanOld_def RATE_LIMIT_WINDOW_MS_def
        RATE_LIMIT_MAX_REQUESTS_def)
  have "?res = (fst ?res, snd ?res)" by simp
  from denied_check_keeps_entry [OF this denied] denied show ?thesis by simp
qed

text \<open>
  C1 as the claim states it fails on the second half. The limiter keeps a fixed window
  per caller, opened by the check that creates the entry, not a rolling one: in \<open>burst\<close>
  the eleven checks from 59991 to 60002 lie within 11 ms of each other, and the eleventh
  of them is allowed, with 8 checks still remaining, because the caller's window was
  opened anew at 60001.
\<close>

theorem rolling_window_counterexample:
  "checks_between ''a'' 59991 60002 burst = 11 \<and>
   last burst = (60002, ''a'') \<and>
   last (fst (run_checks Map.empty burst)) = \<lparr>allowed = True, remaining = 8\<rparr>"
  by (simp add: burst_def checks_between_def checkRateLimit_def Let_def cleanOld_def
      RATE_LIMIT_WINDOW_MS_def RATE_LIMIT_MAX_REQUESTS_def)

text \<open>
  C1, amended. For a caller with no entry in the store:
  (1) if the clock readings do not go back and no span of 60000 ms (both ends included)
  that starts at one of the caller's checks holds more than ten of the caller's checks,
  every check of the caller is allowed;
  (2) if the caller's check at \<open>t1\<close> is followed by checks (of any callers) all read no
  later than \<open>t1 + 60000\<close>, the caller's \<open>k\<close>-th check of that fixed window is allowed
  with \<open>remaining = 10 - k\<close> for \<open>k \<le> 10\<close>, and denied with \<open>remaining = 0\<close> from the
  eleventh on.
\<close>

theorem rate_limit_fixed_window:
  assumes "st ip = None"
  shows "(sorted (map fst es) \<and> at_most_ten_per_span ip es \<longrightarrow>
            list_all allowed (decisions_for ip es (fst (run_checks st es)))) \<and>
         ((\<forall>e\<in>set rest. fst e \<le> t1 + RATE_LIMIT_WINDOW_MS) \<longrightarrow>
            decisions_for ip ((t1, ip) # rest) (fst (run_checks st ((t1, ip) # rest)))
              = map verdict [1..<Suc (checks_of ip ((t1, ip) # rest))])"
proof (intro conjI impI)
  assume "sorted (map fst es) \<and> at_most_ten_per_span ip es"
  with span_invariant [of es st ip] assms
  show "list_all allowed (decisions_for ip es (fst (run_checks st es)))" by blast
next
  assume within: "\<forall>e\<in>set rest. fst e \<le> t1 + RATE_LIMIT_WINDOW_MS"
  have "cleanOld (t1 - RATE_LIMIT_WINDOW_MS) st ip = None"
    using assms by (simp add: cleanOld_def)
  from window_invariant [OF this within]
  show "decisions_for ip ((t1, ip) # rest) (fst (run_checks st ((t1, ip) # rest)))
          = map verdict [1..<Suc (checks_of ip ((t1, ip) # rest))]" by blast
qed

theorem rate_limit_fixed_window_witness:
  "sorted (map fst calm) \<and> at_most_ten_per_span ''a'' calm \<and>
   list_all allowed (decisions_for ''a'' calm (fst (run_checks Map.empty calm))) \<and>
   list_all (\<lambda>e. fst e \<le> 0 + RATE_LIMIT_WINDOW_MS) (tl eleven) \<and>
   length (decisions_for ''a'' eleven (fst (run_checks Map.empty eleven))) = 11 \<and>
   last (decisions_for ''a'' eleven (fst (run_checks Map.empty eleven)))
     = \<lparr>allowed = False, remaining = 0\<rparr>"
proof -
  have h1: "sorted (map fst calm) \<and> at_most_ten_per_span ''a'' calm"
    by (simp add: calm_def at_most_ten_per_span_def checks_between_def
        RATE_LIMIT_WINDOW_MS_def)
  have h2: "\<forall>e\<in>set (tl eleven). fst e \<le> 0 + RATE_LIMIT_WINDOW_MS"
    by (simp add: eleven_def RATE_LIMIT_WINDOW_MS_def)
  have e: "eleven = (0, ''a'') # tl eleven"
    by (simp add: eleven_def)
  have n: "checks_of ''a'' eleven = 11"
    by (simp add: eleven_def checks_of_def)
  from rate_limit_fixed_window [of Map.empty "''a''" calm "tl eleven" 0] h1 h2
  have a: "list_all allowed (decisions_for ''a'' calm (fst (run_checks Map.empty calm)))"
    and b: "decisions_for ''a'' ((0, ''a'') # tl eleven)
              (fst (run_checks Map.empty ((0, ''a'') # tl eleven)))
            = map verdict [1..<Suc (checks_of ''a'' ((0, ''a'') # tl eleven))]"
    by blast+
  from b have b': "decisions_for ''a'' eleven (fst (run_checks Map.empty eleven))
            = map verdict [1..<Suc 11]"
    by (simp only: e [symmetric] n)
  have "last (map verdict [1..<Suc 11]) = verdict 11"
    by (simp only: upt_Suc_append [of 1 11] map_append last_snoc list.map one_le_numeral)
  then have "last (map verdict [1..<Suc 11]) = \<lparr>allowed = False, remaining = 0\<rparr>"
    by (simp only: verdict_def RATE_LIMIT_MAX_REQUESTS_def) simp
  with h1 h2 a b' show ?thesis
    by (simp add: list_all_iff del: upt_Suc)
qed

section \<open>Properties of the sanitizer\<close>

lemma canon_lt: "canon c = CHR ''<'' \<Longrightarrow> c = CHR ''<''"
proof (rule ccontr)
  assume a: "canon c = CHR ''<''" and n: "c \<noteq> CHR ''<''"
  then have r: "97 \<le> (of_char c :: nat) \<and> (of_char c :: nat) \<le> 122"
    and e: "char_of ((of_char c :: nat) - 32) = CHR ''<''"
    by (auto simp: canon_def Let_def split: if_splits)
  from e have "(of_char (char_of ((of_char c :: nat) - 32)) :: nat) = of_char (CHR ''<'')"
    by simp
  then have "((of_char c :: nat) - 32) mod 256 = 60"
    by simp
  moreover from r have "(of_char c :: nat) - 32 < 256" by arith
  then have "((of_char c :: nat) - 32) mod 256 = (of_char c :: nat) - 32"
    by (rule mod_less)
  ultimately show False using r by arith
qed

lemma startsWith_ci_lt: "startsWith_ci (c # cs) (CHR ''<'' # ps) \<Longrightarrow> c = CHR ''<''"
  using canon_lt [of c] by (simp add: canon_def)

lemma after_close_no_lt: "CHR ''<'' \<notin> set s \<Longrightarrow> after_close s = None"
  using startsWith_ci_lt by (induction s) auto

lemma match_script_no_lt: "c \<noteq> CHR ''<'' \<Longrightarrow> match_script (c # cs) = None"
  using startsWith_ci_lt [of c cs] by (auto simp: match_script_def)

lemma strip_scripts_no_lt: "CHR ''<'' \<notin> set s \<Longrightarrow> strip_scripts s = s"
  by (induction s) (auto simp: match_script_no_lt)

lemma strip_angles_set: "set (strip_angles s) = set s - {CHR ''<'', CHR ''>''}"
  by (auto simp: strip_angles_def)

lemma strip_angles_id:
  "CHR ''<'' \<notin> set s \<Longrightarrow> CHR ''>'' \<notin> set s \<Longrightarrow> strip_angles s = s"
  unfolding strip_angles_def by (rule filter_True) auto

lemma set_trim: "set (trim s) \<subseteq> set s"
proof -
  have "set (trim s) \<subseteq> set (dropWhile is_space s)"
    unfolding trim_def by (auto dest: set_dropWhileD)
  also have "\<dots> \<subseteq> set s" by (auto dest: set_dropWhileD)
  finally show ?thesis .
qed

lemma length_trim: "length (trim s) \<le> length s"
proof -
  have "length (trim s) \<le> length (dropWhile is_space s)"
    unfolding trim_def by (simp add: length_dropWhile_le [of is_space "rev (dropWhile is_space s)", simplified])
  also have "\<dots> \<le> length s" by (rule length_dropWhile_le)
  finally show ?thesis .
qed

lemma sanitize_set: "set (sanitize s) \<subseteq> set (strip_scripts s) - {CHR ''<'', CHR ''>''}"
proof -
  have "set (sanitize s) \<subseteq> set (trim (strip_angles (strip_scripts s)))"
    unfolding sanitize_def by (rule set_take_subset)
  also have "\<dots> \<subseteq> set (strip_angles (strip_scripts s))" by (rule set_trim)
  finally show ?thesis by (simp add: strip_angles_set)
qed

lemma sanitize_no_angles: "CHR ''<'' \<notin> set (sanitize s) \<and> CHR ''>'' \<notin> set (sanitize s)"
  using sanitize_set [of s] by auto

lemma length_sanitize: "length (sanitize s) \<le> 10000"
  by (simp add: sanitize_def)

lemma sanitize_twice: "sanitize (sanitize s) = trim (sanitize s)"
proof -
  let ?v = "sanitize s"
  have "strip_angles (strip_scripts ?v) = ?v"
    using sanitize_no_angles [of s] by (simp add: strip_scripts_no_lt strip_angles_id)
  then have "sanitize ?v = take 10000 (trim ?v)"
    by (simp add: sanitize_def [of ?v])
  moreover have "length (trim ?v) \<le> 10000"
    using length_trim [of ?v] length_sanitize [of s] by simp
  ultimately show ?thesis by simp
qed

lemma trim_head: "trim s = [] \<or> \<not> is_space (hd (trim s))"
proof (cases "dropWhile is_space s")
  case Nil
  show ?thesis unfolding trim_def Nil by simp
next
  case (Cons a d)
  then have "\<not> is_space a"
    using hd_dropWhile [of is_space s] by simp
  with Cons show ?thesis
    by (simp add: trim_def dropWhile_append3)
qed

lemma trim_last: "trim s = [] \<or> \<not> is_space (last (trim s))"
proof (cases "dropWhile is_space (rev (dropWhile is_space s))")
  case Nil
  show ?thesis unfolding trim_def Nil by simp
next
  case (Cons a d)
  then have "\<not> is_space a"
    using hd_dropWhile [of is_space "rev (dropWhile is_space s)"] by simp
  with Cons show ?thesis
    by (simp add: trim_def)
qed

lemma trim_id_iff:
  "trim s = s \<longleftrightarrow> s = [] \<or> (\<not> is_space (hd s) \<and> \<not> is_space (last s))"
proof (cases "s = []")
  case True
  then show ?thesis by (simp add: trim_def)
next
  case False
  show ?thesis
  proof
    assume "trim s = s"
    with trim_head [of s] trim_last [of s] show "s = [] \<or> (\<not> is_space (hd s) \<and> \<not> is_space (last s))"
      by auto
  next
    assume "s = [] \<or> (\<not> is_space (hd s) \<and> \<not> is_space (last s))"
    with False have h: "\<not> is_space (hd s)" and l: "\<not> is_space (last s)" by auto
    from h False have 1: "dropWhile is_space s = s" by (simp add: dropWhile_eq_self_iff)
    from l False have 2: "dropWhile is_space (rev s) = rev s"
      by (simp add: dropWhile_eq_self_iff hd_rev)
    show "trim s = s" by (simp add: trim_def 1 2)
  qed
qed

lemma trim_idem: "trim (trim s) = trim s"
  using trim_head [of s] trim_last [of s] by (auto simp: trim_id_iff)

lemma sanitize_head: "sanitize s = [] \<or> \<not> is_space (hd (sanitize s))"
proof -
  let ?u = "trim (strip_angles (strip_scripts s))"
  show ?thesis
  proof (cases "sanitize s = []")
    case False
    then have "?u \<noteq> []" by (auto simp: sanitize_def)
    with trim_head [of "strip_angles (strip_scripts s)"] have "\<not> is_space (hd ?u)" by simp
    moreover have "hd (sanitize s) = hd ?u"
      using False by (simp add: sanitize_def hd_take)
    ultimately show ?thesis by simp
  qed simp
qed

lemma sanitize_idem_iff:
  "sanitize (sanitize s) = sanitize s \<longleftrightarrow> sanitize s = [] \<or> \<not> is_space (last (sanitize s))"
  using sanitize_head [of s] by (auto simp: sanitize_twice trim_id_iff)

lemma sanitize_idem_short:
  assumes "length (trim (strip_angles (strip_scripts s))) \<le> 10000"
  shows "sanitize (sanitize s) = sanitize s"
proof -
  from assms have "sanitize s = trim (strip_angles (strip_scripts s))"
    by (simp add: sanitize_def)
  then have "trim (sanitize s) = sanitize s"
    by (simp only: trim_idem)
  then show ?thesis by (simp only: sanitize_twice)
qed

lemma not_space_a: "\<not> is_space (CHR ''a'')" "\<not> is_space (CHR ''b'')" "is_space (CHR '' '')"
  by (simp_all add: is_space_def)

lemma sanitize_long_input: "sanitize long_input = replicate 9999 (CHR ''a'') @ '' ''"
proof -
  have 1: "strip_angles (strip_scripts long_input) = long_input"
    by (simp add: strip_scripts_no_lt strip_angles_id long_input_def)
  have 2: "trim long_input = long_input"
    by (simp add: trim_id_iff long_input_def not_space_a hd_append)
  show ?thesis
    unfolding sanitize_def 1 2 by (simp add: long_input_def)
qed

lemma sanitize_twice_long_input: "sanitize (sanitize long_input) = replicate 9999 (CHR ''a'')"
proof -
  have "dropWhile is_space (replicate 9999 (CHR ''a'') @ '' '') = replicate 9999 (CHR ''a'') @ '' ''"
    by (simp add: dropWhile_eq_self_iff hd_append not_space_a)
  moreover have "dropWhile is_space (replicate 9999 (CHR ''a'')) = replicate 9999 (CHR ''a'')"
    by (simp add: dropWhile_eq_self_iff not_space_a)
  ultimately have "trim (replicate 9999 (CHR ''a'') @ '' '') = replicate 9999 (CHR ''a'')"
    by (simp add: trim_def not_space_a)
  moreover have "sanitize (sanitize long_input) = trim (sanitize long_input)"
    by (rule sanitize_twice)
  ultimately show ?thesis
    by (simp only: sanitize_long_input)
qed

lemma sanitize_tagged: "sanitize tagged = ''bhi/b  ok''"
  by (simp add: tagged_def sanitize_def strip_angles_def trim_def is_space_def
      match_script_def canon_def is_word_char_def is_letter_def is_digit_def)

text \<open>
  C4 as stated fails on idempotence. The cap at 10,000 code units is applied after the
  trim, so the cut can land right behind a blank; the second application trims that blank
  away. For \<open>long_input\<close>, 9999 letters followed by a blank and a letter, one
  application gives the 9999 letters and the blank, two applications give the 9999 letters.
\<close>

theorem sanitize_not_idempotent:
  "sanitize (sanitize long_input) \<noteq> sanitize long_input"
proof
  assume "sanitize (sanitize long_input) = sanitize long_input"
  then have "length (sanitize (sanitize long_input)) = length (sanitize long_input)"
    by simp
  moreover have "length (sanitize (sanitize long_input)) = 9999"
    by (simp add: sanitize_twice_long_input)
  moreover have "length (sanitize long_input) = 10000"
    by (simp add: sanitize_long_input)
  ultimately show False by simp
qed

text \<open>
  C4, amended. For every input string the sanitized value contains no \<open><\<close> and no
  \<open>>\<close>, hence nothing the script-block pattern could match; a second application
  only trims the value once more; it changes nothing whenever the stripped and trimmed
  value has at most 10,000 code units (no cut), and in general exactly when the sanitized
  value does not end in white space.
\<close>

theorem sanitize_properties:
  "CHR ''<'' \<notin> set (sanitize s) \<and> CHR ''>'' \<notin> set (sanitize s) \<and>
   strip_scripts (sanitize s) = sanitize s \<and>
   sanitize (sanitize s) = trim (sanitize s) \<and>
   (length (trim (strip_angles (strip_scripts s))) \<le> 10000 \<longrightarrow>
      sanitize (sanitize s) = sanitize s) \<and>
   ((sanitize (sanitize s) = sanitize s) =
      (sanitize s = [] \<or> \<not> is_space (last (sanitize s))))"
  using sanitize_no_angles [of s] sanitize_twice [of s] sanitize_idem_short [of s]
    sanitize_idem_iff [of s] strip_scripts_no_lt [of "sanitize s"]
  by blast

theorem sanitize_properties_witness:
  "length (trim (strip_angles (strip_scripts tagged))) \<le> 10000 \<and>
   sanitize tagged = ''bhi/b  ok'' \<and>
   sanitize (sanitize tagged) = sanitize tagged"
proof -
  have "length (trim (strip_angles (strip_scripts tagged))) \<le> length tagged"
    using length_trim [of "strip_angles (strip_scripts tagged)"]
      sanitize_set [of tagged]
    by (simp add: tagged_def strip_angles_def trim_def is_space_def
      match_script_def canon_def is_word_char_def is_letter_def is_digit_def)
  then have h: "length (trim (strip_angles (strip_scripts tagged))) \<le> 10000"
    by (simp add: tagged_def)
  from sanitize_properties [of tagged] h
  have "sanitize (sanitize tagged) = sanitize tagged" by blast
  with h sanitize_tagged show ?thesis by (intro conjI)
qed

section \<open>Properties of the storage path\<close>

lemma digit_char_hex: "d < 16 \<Longrightarrow> is_hex (digit_char d)"
proof -
  assume "d < 16"
  then have "d \<in> set [0..<16]" by simp
  moreover have "list_all (\<lambda>d. is_hex (digit_char d)) [0..<16]"
    by (simp add: upt_rec is_hex_def digit_char_def)
  ultimately show ?thesis
    unfolding list_all_iff by blast
qed

lemma digit_char_digit: "d < 10 \<Longrightarrow> is_digit (digit_char d)"
proof -
  assume "d < 10"
  then have "d \<in> set [0..<10]" by simp
  moreover have "list_all (\<lambda>d. is_digit (digit_char d)) [0..<10]"
    by (simp add: upt_rec is_digit_def digit_char_def)
  ultimately show ?thesis
    unfolding list_all_iff by blast
qed

lemma hex_byte:
  assumes "n < 256"
  shows "length (padStart2 (toString_radix 16 n)) = 2 \<and>
         list_all is_hex (padStart2 (toString_radix 16 n))"
proof (cases "n < 16")
  case True
  have "is_hex (CHR ''0'')" by (simp add: is_hex_def)
  with True show ?thesis
    by (simp add: toString_radix.simps [of 16 n] padStart2_def digit_char_hex)
next
  case False
  with assms have "n div 16 < 16" by simp
  with False show ?thesis
    by (simp add: toString_radix.simps [of 16 n] toString_radix.simps [of 16 "n div 16"]
        padStart2_def digit_char_hex)
qed

lemma randomId_shape: "length (randomId rnd) = 16 \<and> list_all is_hex (randomId rnd)"
proof -
  have b: "unat (rnd i) < 256" for i
    using unsigned_less [of "rnd i", where ?'a = nat] by simp
  have "length (concat (map (\<lambda>i. padStart2 (toString_radix 16 (unat (rnd i)))) xs)) = 2 * length xs
      \<and> list_all is_hex (concat (map (\<lambda>i. padStart2 (toString_radix 16 (unat (rnd i)))) xs))" for xs
    using hex_byte [OF b] by (induction xs) simp_all
  from this [of "[0..<8]"] show ?thesis
    by (simp add: randomId_def)
qed

lemma decimal_digits: "list_all is_digit (toString_radix 10 n)"
proof (induction n rule: less_induct)
  case (less n)
  show ?case
  proof (cases "n < 10")
    case True
    then show ?thesis
      by (simp add: toString_radix.simps [of 10 n] digit_char_digit)
  next
    case False
    then have "n div 10 < n" by simp
    from less [OF this] False show ?thesis
      by (simp add: toString_radix.simps [of 10 n] digit_char_digit)
  qed
qed

lemma sanitizedName_shape:
  "length (sanitizedName f) \<le> 100 \<and>
   list_all (\<lambda>c. keeps c \<or> c = CHR ''_'') (sanitizedName f) \<and>
   length (sanitizedName f) = min 100 (length f)"
  by (auto simp: sanitizedName_def list_all_iff dest!: in_set_takeD)

text \<open>
  C5 as stated fails on the character set: every code unit outside letters, digits, dot
  and hyphen is replaced by an underscore, so the sanitized file name can hold
  underscores.
\<close>

theorem sanitized_name_counterexample:
  "sanitizedName ''Rent Roll (final).pdf'' = ''Rent_Roll__final_.pdf'' \<and>
   CHR ''_'' \<in> set (sanitizedName ''Rent Roll (final).pdf'') \<and>
   \<not> (is_letter (CHR ''_'') \<or> is_digit (CHR ''_'') \<or> CHR ''_'' = CHR ''.''
       \<or> CHR ''_'' = CHR ''-'')"
  by (simp add: sanitizedName_def keeps_def is_letter_def is_digit_def)

text \<open>
  C5, amended. For every file name the upload goes to the storage path
  \<open>uploads/<epoch-ms>-<random suffix>-<sanitized name>\<close>, which is also the key of a
  successful result: the clock reading in decimal (digits only when it is not negative),
  16 lower-case hexadecimal digits from the 8 random bytes, and the file name with every
  code unit other than a letter, digit, dot or hyphen replaced by an underscore, cut to
  at most 100 code units.
\<close>

theorem storage_path_shape:
  "fst (uploadToSupabase su sk bucket ts rnd reply buf filename mt cat)
     = StoragePost (su @ ''/storage/v1/object/'' @ bucket @ ''/'' @ filePath ts rnd filename)
         (''Bearer '' @ sk) mt buf \<and>
   (\<forall>r. snd (uploadToSupabase su sk bucket ts rnd reply buf filename mt cat) = Inr r
      \<longrightarrow> key r = filePath ts rnd filename) \<and>
   filePath ts rnd filename
     = ''uploads/'' @ String_int ts @ ''-'' @ randomId rnd @ ''-'' @ sanitizedName filename \<and>
   (0 \<le> ts \<longrightarrow> list_all is_digit (String_int ts)) \<and>
   length (randomId rnd) = 16 \<and> list_all is_hex (randomId rnd) \<and>
   sanitizedName filename
     = take 100 (map (\<lambda>c. if keeps c then c else CHR ''_'') filename) \<and>
   length (sanitizedName filename) \<le> 100 \<and>
   list_all (\<lambda>c. is_letter c \<or> is_digit c \<or> c = CHR ''.'' \<or> c = CHR ''-'' \<or> c = CHR ''_'')
     (sanitizedName filename)"
proof -
  have 1: "fst (uploadToSupabase su sk bucket ts rnd reply buf filename mt cat)
     = StoragePost (su @ ''/storage/v1/object/'' @ bucket @ ''/'' @ filePath ts rnd filename)
         (''Bearer '' @ sk) mt buf"
    by (simp add: uploadToSupabase_def Let_def)
  have 2: "\<forall>r. snd (uploadToSupabase su sk bucket ts rnd reply buf filename mt cat) = Inr r
      \<longrightarrow> key r = filePath ts rnd filename"
    by (auto simp: uploadToSupabase_def Let_def split: fetch_reply.splits if_splits)
  have 3: "filePath ts rnd filename
     = ''uploads/'' @ String_int ts @ ''-'' @ randomId rnd @ ''-'' @ sanitizedName filename"
    by (simp add: filePath_def)
  have 4: "0 \<le> ts \<longrightarrow> list_all is_digit (String_int ts)"
    by (simp add: String_int_def decimal_digits)
  have 5: "list_all (\<lambda>c. is_letter c \<or> is_digit c \<or> c = CHR ''.'' \<or> c = CHR ''-'' \<or> c = CHR ''_'')
     (sanitizedName filename)"
    using sanitizedName_shape [of filename] by (simp add: keeps_def)
  have 6: "sanitizedName filename
     = take 100 (map (\<lambda>c. if keeps c then c else CHR ''_'') filename)"
    by (simp add: sanitizedName_def)
  from 1 2 3 4 5 6 randomId_shape [of rnd] sanitizedName_shape [of filename]
  show ?thesis by blast
qed

theorem storage_path_shape_witness:
  "(0::int) \<le> 1700000000100 \<and>
   list_all is_digit (String_int 1700000000100) \<and>
   snd (uploadToSupabase ''https://db.example'' ''service-key'' ''temp_files'' 1700000000100
          (\<lambda>j. of_nat (j * 37)) (Reply 200 ''{}'') [37, 80, 68, 70]
          ''Rent Roll (final).pdf'' ''application/pdf'' ''rentRoll'')
     = Inr \<lparr>category = ''rentRoll'', orig_name = ''Rent Roll (final).pdf'',
            url = ''https://db.example/storage/v1/object/public/temp_files/uploads/1700000000100-00254a6f94b9de03-Rent_Roll__final_.pdf'',
            key = ''uploads/1700000000100-00254a6f94b9de03-Rent_Roll__final_.pdf''\<rparr> \<and>
   filePath 1700000000100 (\<lambda>j. of_nat (j * 37)) ''Rent Roll (final).pdf''
     = ''uploads/1700000000100-00254a6f94b9de03-Rent_Roll__final_.pdf''"
proof -
  have p: "filePath 1700000000100 (\<lambda>j. of_nat (j * 37)) ''Rent Roll (final).pdf''
     = ''uploads/1700000000100-00254a6f94b9de03-Rent_Roll__final_.pdf''"
    by (simp add: filePath_def String_int_def digit_char_def randomId_def padStart2_def
        sanitizedName_def keeps_def is_letter_def is_digit_def upt_rec toString_radix.simps)
  have r: "snd (uploadToSupabase ''https://db.example'' ''service-key'' ''temp_files''
          1700000000100 (\<lambda>j. of_nat (j * 37)) (Reply 200 ''{}'') [37, 80, 68, 70]
          ''Rent Roll (final).pdf'' ''application/pdf'' ''rentRoll'')
     = Inr \<lparr>category = ''rentRoll'', orig_name = ''Rent Roll (final).pdf'',
            url = ''https://db.example/storage/v1/object/public/temp_files/''
                  @ filePath 1700000000100 (\<lambda>j. of_nat (j * 37)) ''Rent Roll (final).pdf'',
            key = filePath 1700000000100 (\<lambda>j. of_nat (j * 37)) ''Rent Roll (final).pdf''\<rparr>"
    by (simp add: uploadToSupabase_def Let_def ok_status_def)
  from storage_path_shape [of "''https://db.example''" "''service-key''" "''temp_files''"
      1700000000100 "\<lambda>j. of_nat (j * 37)" "Reply 200 ''{}''" "[37, 80, 68, 70]"
      "''Rent Roll (final).pdf''" "''application/pdf''" "''rentRoll''"]
  have "list_all is_digit (String_int 1700000000100)" by simp
  with p r show ?thesis by simp
qed

section \<open>Properties of the response constructor\<close>

lemma dropWhile_none: "list_all (\<lambda>c. \<not> P c) s \<Longrightarrow> dropWhile P s = s"
  by (cases s) simp_all

lemma normalize_value_id: "list_all (\<lambda>c. \<not> http_space c) s \<Longrightarrow> normalize_value s = s"
proof -
  assume a: "list_all (\<lambda>c. \<not> http_space c) s"
  then have "list_all (\<lambda>c. \<not> http_space c) (rev s)" by (simp add: list_all_iff)
  with a show ?thesis by (simp add: normalize_value_def dropWhile_none)
qed

lemma cors_names:
  "is_token ''Access-Control-Allow-Origin''" "is_token ''Access-Control-Allow-Methods''"
  "is_token ''Access-Control-Allow-Headers''" "is_token ''Access-Control-Max-Age''"
  "is_token ''Content-Type''" "is_token ''Retry-After''" "is_token ''X-RateLimit-Remaining''"
  by (simp_all add: is_token_def is_tchar_def is_letter_def is_digit_def)

lemma cors_values:
  "normalize_value ''POST, OPTIONS'' = ''POST, OPTIONS''"
  "normalize_value ''Content-Type, X-Requested-With'' = ''Content-Type, X-Requested-With''"
  "normalize_value ''86400'' = ''86400''"
  "normalize_value ''application/json'' = ''application/json''"
  "normalize_value ''60'' = ''60''" "normalize_value ''0'' = ''0''"
  "legal_value ''POST, OPTIONS''" "legal_value ''Content-Type, X-Requested-With''"
  "legal_value ''86400''" "legal_value ''application/json''"
  "legal_value ''60''" "legal_value ''0''"
  by (simp_all add: normalize_value_def http_space_def legal_value_def)

lemma fill_cors:
  "fill_headers (getCorsHeaders cfg origin @ extra) =
     (if legal_value (normalize_value (allowOrigin cfg origin)) then
        (case fill_headers extra of
           Inl e \<Rightarrow> Inl e
         | Inr h \<Rightarrow> Inr (cors_response_headers cfg origin @ h))
      else Inl TypeError)"
  by (simp add: getCorsHeaders_def cors_response_headers_def cors_names cors_values
      split: sum.splits)

lemma Response_new_cors_extra:
  assumes "200 \<le> st" "st \<le> 599"
  shows "Response_new b st (getCorsHeaders cfg origin @ extra) =
     (if \<not> legal_value (normalize_value (allowOrigin cfg origin)) then Inl TypeError
      else (case fill_headers extra of
              Inl e \<Rightarrow> Inl e
            | Inr h \<Rightarrow>
                if b \<noteq> None \<and> null_body_status st then Inl TypeError
                else Inr \<lparr>status = st, resp_headers = cors_response_headers cfg origin @ h,
                          body = b\<rparr>))"
  using assms by (simp add: Response_new_def fill_cors split: sum.splits)

lemma Response_new_cors:
  assumes "200 \<le> st" "st \<le> 599"
  shows "Response_new b st (getCorsHeaders cfg origin) =
     (if \<not> legal_value (normalize_value (allowOrigin cfg origin)) then Inl TypeError
      else if b \<noteq> None \<and> null_body_status st then Inl TypeError
      else Inr \<lparr>status = st, resp_headers = cors_response_headers cfg origin, body = b\<rparr>)"
  using Response_new_cors_extra [OF assms, of b cfg origin "[]"] by simp

lemma fill_retry:
  "fill_headers [(''Retry-After'', ''60''), (''X-RateLimit-Remaining'', ''0'')]
     = Inr [(''Retry-After'', ''60''), (''X-RateLimit-Remaining'', ''0'')]"
  by (simp add: cors_names cors_values)

lemma String_int_plain: "list_all (\<lambda>c. is_digit c \<or> c = CHR ''-'') (String_int i)"
  using decimal_digits [of "nat i"] decimal_digits [of "nat (- i)"]
  by (simp add: String_int_def list_all_iff)

lemma plain_value:
  assumes "list_all (\<lambda>c. is_digit c \<or> c = CHR ''-'') s"
  shows "normalize_value s = s \<and> legal_value s"
proof -
  have "\<not> http_space c \<and> of_char c \<notin> {0, 10, 13 :: nat}" if "is_digit c \<or> c = CHR ''-''" for c
    using that by (auto simp: is_digit_def http_space_def Let_def)
  with assms have "list_all (\<lambda>c. \<not> http_space c) s" and "legal_value s"
    by (auto simp: list_all_iff legal_value_def)
  then show ?thesis by (simp add: normalize_value_id)
qed

lemma fill_remaining:
  "fill_headers [(''X-RateLimit-Remaining'', String_int n)]
     = Inr [(''X-RateLimit-Remaining'', String_int n)]"
  using plain_value [OF String_int_plain, of n] by (simp add: cors_names)

section \<open>Properties of the handler\<close>

lemma handler_try_parsing:
  assumes "reaches_parsing cfg w store req"
  shows "handler_try cfg w store req corsHeaders =
     (case parseMultipartFormData req of
        Inl parseError \<Rightarrow>
          (Response_new (Some (failure parseError)) 400 corsHeaders,
           snd (checkRateLimit (now_ms w) (clientIpOf req) store), [])
      | Inr (flds, fs) \<Rightarrow>
          (fst (process_submission cfg w corsHeaders (clientIpOf req)
                  (fst (checkRateLimit (now_ms w) (clientIpOf req) store)) flds fs),
           snd (checkRateLimit (now_ms w) (clientIpOf req) store),
           snd (process_submission cfg w corsHeaders (clientIpOf req)
                  (fst (checkRateLimit (now_ms w) (clientIpOf req) store)) flds fs)))"
proof -
  obtain rl store' where c: "checkRateLimit (now_ms w) (clientIpOf req) store = (rl, store')"
    by (cases "checkRateLimit (now_ms w) (clientIpOf req) store")
  with assms have "allowed rl" by (simp add: reaches_parsing_def)
  with assms c show ?thesis
    by (simp add: handler_try_def reaches_parsing_def case_prod_beta split: sum.splits)
qed


lemma handler_post:
  assumes "req_method req = ''POST''"
  shows "snd (handler cfg w store req)
           = snd (handler_try cfg w store req
                    (getCorsHeaders cfg (or_else (origin_header req) ''''))) \<and>
         (\<forall>r. fst (handler_try cfg w store req
                    (getCorsHeaders cfg (or_else (origin_header req) ''''))) = Inr r
              \<longrightarrow> fst (handler cfg w store req) = Inr r) \<and>
         (\<forall>e. fst (handler_try cfg w store req
                    (getCorsHeaders cfg (or_else (origin_header req) ''''))) = Inl e
              \<longrightarrow> fst (handler cfg w store req) =
                    Response_new
                      (Some (failure ''An unexpected error occurred. Please try again.''))
                      500 (getCorsHeaders cfg (or_else (origin_header req) '''')))"
  using assms
  by (auto simp: handler_def Let_def split: prod.splits sum.splits)


lemma process_submission_rejects:
  assumes "\<not> legal_value (normalize_value (allowOrigin cfg origin))"
  shows "fst (process_submission cfg w (getCorsHeaders cfg origin) ip rl flds fs)
           = Inl TypeError"
  using assms
  by (simp add: process_submission_def Let_def Response_new_cors Response_new_cors_extra
      split: prod.splits sum.splits fetch_reply.splits)

lemma handler_try_rejects:
  assumes "\<not> legal_value (normalize_value (allowOrigin cfg origin))"
  shows "fst (handler_try cfg w store req (getCorsHeaders cfg origin)) = Inl TypeError"
  using assms process_submission_rejects [OF assms]
  by (simp add: handler_try_def case_prod_beta Response_new_cors Response_new_cors_extra
      split: sum.splits)

text \<open>When the constructor refuses the \<open>Access-Control-Allow-Origin\<close> value, no response
  can be built, in the \<^verbatim>\<open>catch\<close> neither: the handler ends with the \<^verbatim>\<open>TypeError\<close>.\<close>

lemma handler_rejects:
  assumes "\<not> cors_value_ok cfg req"
  shows "fst (handler cfg w store req) = Inl TypeError"
proof -
  let ?cors = "getCorsHeaders cfg (or_else (origin_header req) '''')"
  from assms have bad: "\<not> legal_value (normalize_value
      (allowOrigin cfg (or_else (origin_header req) '''')))"
    by (simp add: cors_value_ok_def)
  show ?thesis
  proof (cases "req_method req = ''POST''")
    case True
    from handler_try_rejects [OF bad] handler_post [OF True, of cfg w store]
    have "fst (handler cfg w store req) =
            Response_new (Some (failure ''An unexpected error occurred. Please try again.''))
              500 ?cors" by simp
    with bad show ?thesis by (simp add: Response_new_cors)
  next
    case False
    with bad show ?thesis
      by (simp add: handler_def Let_def Response_new_cors)
  qed
qed

lemma process_submission_headers:
  assumes "fst (process_submission cfg w (getCorsHeaders cfg origin) ip rl flds fs) = Inr r"
  shows "\<exists>extra. resp_headers r = cors_response_headers cfg origin @ extra"
  using assms
  by (auto simp: process_submission_def Let_def Response_new_cors Response_new_cors_extra
      fill_remaining split: prod.splits sum.splits fetch_reply.splits if_splits)

lemma handler_try_headers:
  assumes "fst (handler_try cfg w store req (getCorsHeaders cfg origin)) = Inr r"
  shows "\<exists>extra. resp_headers r = cors_response_headers cfg origin @ extra"
  using assms process_submission_headers [of cfg w origin "clientIpOf req"
      "fst (checkRateLimit (now_ms w) (clientIpOf req) store)" _ _ r]
  by (auto simp: handler_try_def case_prod_beta Response_new_cors Response_new_cors_extra
      fill_retry split: if_splits sum.splits)

lemma handler_headers:
  assumes "fst (handler cfg w store req) = Inr r"
  shows "\<exists>extra. resp_headers r
           = cors_response_headers cfg (or_else (origin_header req) '''') @ extra"
proof (cases "req_method req = ''POST''")
  case True
  let ?cors = "getCorsHeaders cfg (or_else (origin_header req) '''')"
  show ?thesis
  proof (cases "fst (handler_try cfg w store req ?cors)")
    case (Inl e)
    with handler_post [OF True, of cfg w store] assms show ?thesis
      by (auto simp: Response_new_cors split: if_splits)
  next
    case (Inr r')
    with handler_post [OF True, of cfg w store] assms have "r' = r" by simp
    with Inr handler_try_headers show ?thesis by blast
  qed
next
  case False
  with assms show ?thesis
    by (auto simp: handler_def Let_def Response_new_cors split: if_splits)
qed





lemma upload_files_exact:
  "\<forall>j<length fs. upload_succeeds (storage_reply w (i + j)) \<Longrightarrow>
   upload_files cfg w i fs acc sent =
     (sent @ map (expected_call (or_else (SUPABASE_URL cfg) '''')
                    (or_else (SUPABASE_SERVICE_KEY cfg) '''') (SUPABASE_BUCKET cfg) w)
               (enumerate i fs),
      Inr (acc @ map (expected_upload (or_else (SUPABASE_URL cfg) '''')
                        (SUPABASE_BUCKET cfg) w) (enumerate i fs)))"
proof (induction fs arbitrary: i acc sent)
  case Nil
  then show ?case by simp
next
  case (Cons f fs)
  from Cons.prems have first: "upload_succeeds (storage_reply w i)"
    and rest: "\<forall>j<length fs. upload_succeeds (storage_reply w (Suc i + j))"
    by force+
  from first obtain st b where r: "storage_reply w i = Reply st b" and ok: "ok_status st"
    by (auto simp: upload_succeeds_def split: fetch_reply.splits)
  have u: "uploadToSupabase (or_else (SUPABASE_URL cfg) '''')
             (or_else (SUPABASE_SERVICE_KEY cfg) '''') (SUPABASE_BUCKET cfg)
             (upload_now w i) (upload_random w i) (storage_reply w i)
             (buffer f) (originalname f) (mimetype f) (fieldname f)
           = (expected_call (or_else (SUPABASE_URL cfg) '''')
                (or_else (SUPABASE_SERVICE_KEY cfg) '''') (SUPABASE_BUCKET cfg) w (i, f),
              Inr (expected_upload (or_else (SUPABASE_URL cfg) '''')
                     (SUPABASE_BUCKET cfg) w (i, f)))"
    using r ok
    by (simp add: uploadToSupabase_def Let_def expected_call_def expected_upload_def)
  show ?case
    by (simp add: u Cons.IH [OF rest] enumerate_simps)
qed

lemma last_of_category_snoc:
  "last_of_category c (us @ [u]) =
     (if category u = c then Some (orig_name u, url u) else last_of_category c us)"
  by (simp add: last_of_category_def Let_def)

lemma fold_files:
  "distinct (map fst acc) \<Longrightarrow>
   distinct (map fst (fold (\<lambda>f acc. AList.update (category f) (orig_name f, url f) acc) us acc)) \<and>
   map_of (fold (\<lambda>f acc. AList.update (category f) (orig_name f, url f) acc) us acc) c
     = (case last_of_category c us of None \<Rightarrow> map_of acc c | Some x \<Rightarrow> Some x)"
proof (induction us rule: rev_induct)
  case Nil
  then show ?case by (simp add: last_of_category_def)
next
  case (snoc u us)
  then show ?case
    by (simp add: last_of_category_snoc distinct_update update_conv' split: option.splits)
qed

lemma files_by_category_last:
  "distinct (map fst (files_by_category us)) \<and>
   map_of (files_by_category us) c = last_of_category c us"
  using fold_files [of "[]" us c]
  by (simp add: files_by_category_def split: option.splits)

lemma process_submission_uploaded:
  assumes valid: "fst (validateFormData flds) = []"
    and fin: "''financialInfo'' \<in> set (map fieldname fs)"
    and up: "upload_files cfg w 0 fs [] [] = (posts, Inr ups)"
  shows "process_submission cfg w cors ip rl flds fs =
     (case webhook_reply w of
        NetworkError msg \<Rightarrow>
          (Inl TypeError,
           posts @ [WebhookPost (or_else (WEBHOOK_URL cfg) '''')
                      (webhookPayload (snd (validateFormData flds)) (server_now w) ip ups)])
      | Reply st webhookBody \<Rightarrow>
          if \<not> ok_status st then
            (Response_new
               (Some (failure ''Failed to process submission. Please try again.''))
               502 cors,
             posts @ [WebhookPost (or_else (WEBHOOK_URL cfg) '''')
                        (webhookPayload (snd (validateFormData flds)) (server_now w) ip ups)])
          else
            (Response_new
               (Some \<lparr>success = True, message = Some ''Submission received successfully'',
                  error = None, details = None, retryAfter = None\<rparr>)
               200 (cors @ [(''X-RateLimit-Remaining'', String_int (remaining rl))]),
             posts @ [WebhookPost (or_else (WEBHOOK_URL cfg) '''')
                        (webhookPayload (snd (validateFormData flds)) (server_now w) ip ups)]))"
proof -
  obtain errs sb where v: "validateFormData flds = (errs, sb)"
    by (cases "validateFormData flds")
  with valid have "errs = []" by simp
  with v fin up show ?thesis
    by (simp add: process_submission_def Let_def split: fetch_reply.splits)
qed

lemma ALLOWED_ORIGINS_nonempty: "[] \<notin> set (ALLOWED_ORIGINS cfg)"
  by (simp add: ALLOWED_ORIGINS_def)

lemma startsWith_append: "startsWith (p @ r) p"
  by (induction p) simp_all

lemma str_includes_suffix: "str_includes (xs @ p) p"
proof (induction xs)
  case Nil
  show ?case using startsWith_append [of p "[]"] by (cases p) simp_all
next
  case (Cons x xs)
  then show ?case by simp
qed

lemma suffix_str_includes: "suffix p s \<Longrightarrow> str_includes s p"
  by (auto simp: suffix_def str_includes_suffix)

lemma clientIpOf_post: "clientIpOf (post es) = ''203.0.113.7''"
  by (simp add: clientIpOf_def post_def truthy_def or_else_def trim_def is_space_def)

lemma reaches_parsing_post: "reaches_parsing cfg0 w Map.empty (post es)"
  unfolding reaches_parsing_def clientIpOf_post
  by (simp add: post_def cfg0_def truthy_def checkRateLimit_def Let_def cleanOld_def)


lemma ALLOWED_ORIGINS_cfg0:
  "ALLOWED_ORIGINS cfg0 = [''https://intake.example'', ''https://www.intake.example'']"
  by (simp add: ALLOWED_ORIGINS_def cfg0_def or_else_def)





lemma parse_text_entries:
  "parse_entries (text_entries @ rest) [] [] = parse_entries rest text_fields []"
  by (simp add: text_entries_def text_fields_def set_field_def)

lemma parse_post:
  "parseMultipartFormData (post (text_entries @ rest)) = parse_entries rest text_fields []"
  by (simp add: parseMultipartFormData_def post_def or_else_def parse_text_entries)

lemmas sample_defs = pdf_def parsed_pdf_def MAX_FILE_SIZE_def ALLOWED_MIME_TYPES_def
  ALLOWED_FILE_CATEGORIES_def

lemma validate_text_fields: "fst (validateFormData text_fields) = []"
  by (simp add: validateFormData_def text_fields_def Let_def truthy_def or_else_def
      trim_def is_space_def email_ok_def)

lemma parse_three_files:
  "parseMultipartFormData three_files =
     Inr (text_fields, [parsed_pdf ''financialInfo'' ''fin.pdf'', parsed_pdf ''t12'' ''t12 a.pdf'',
                        parsed_pdf ''t12'' ''t12 b.pdf''])"
  unfolding three_files_def
  by (simp add: parse_post sample_defs)

text \<open>With the origin list of \<open>cfg_lf\<close> and an origin that is not listed, the value for
  \<open>Access-Control-Allow-Origin\<close> has a line feed inside, and the preflight ends with the
  exception instead of a response.\<close>

lemma preflight_rejected_on_line_feed:
  "fst (handler cfg_lf world0 Map.empty preflight) = Inl TypeError"
proof -
  have "\<not> cors_value_ok cfg_lf preflight"
    by (simp add: cors_value_ok_def cfg_lf_def cfg0_def preflight_def or_else_def
        allowOrigin_def isAllowed_def ALLOWED_ORIGINS_def normalize_value_def
        http_space_def legal_value_def)
  then show ?thesis by (rule handler_rejects)
qed










lemma three_paths:
  "filePath (upload_now world0 0) (upload_random world0 0) ''fin.pdf''
     = ''uploads/1700000000100-0001020304050607-fin.pdf''"
  "filePath (upload_now world0 1) (upload_random world0 1) ''t12 a.pdf''
     = ''uploads/1700000000101-1011121314151617-t12_a.pdf''"
  "filePath (upload_now world0 2) (upload_random world0 2) ''t12 b.pdf''
     = ''uploads/1700000000102-2021222324252627-t12_b.pdf''"
  by (simp_all add: world0_def filePath_def String_int_def digit_char_def randomId_def
      padStart2_def sanitizedName_def keeps_def is_letter_def is_digit_def upt_rec
      toString_radix.simps)

lemma three_files_parsed:
  "enumerate 0 [parsed_pdf ''financialInfo'' ''fin.pdf'', parsed_pdf ''t12'' ''t12 a.pdf'',
                parsed_pdf ''t12'' ''t12 b.pdf'']
     = [(0, parsed_pdf ''financialInfo'' ''fin.pdf''), (1, parsed_pdf ''t12'' ''t12 a.pdf''),
        (2, parsed_pdf ''t12'' ''t12 b.pdf'')]"
  by (simp add: enumerate_simps)

lemma three_calls:
  "map (expected_call ''https://db.example'' ''service-key'' ''temp_files'' world0)
     [(0, parsed_pdf ''financialInfo'' ''fin.pdf''), (1, parsed_pdf ''t12'' ''t12 a.pdf''),
      (2, parsed_pdf ''t12'' ''t12 b.pdf'')] = three_posts"
  by (simp add: expected_call_def parsed_pdf_def three_paths
      three_paths(2) [unfolded One_nat_def] three_posts_def)

lemma three_results:
  "map (expected_upload ''https://db.example'' ''temp_files'' world0)
     [(0, parsed_pdf ''financialInfo'' ''fin.pdf''), (1, parsed_pdf ''t12'' ''t12 a.pdf''),
      (2, parsed_pdf ''t12'' ''t12 b.pdf'')] = three_uploads"
  by (simp add: expected_upload_def parsed_pdf_def three_paths
      three_paths(2) [unfolded One_nat_def] three_uploads_def)

text \<open>
  C9. For every submission that passes the gates, parses, validates and has its financial
  information document, when every upload succeeds: the handler sends one storage request
  per attachment, in the order of the attachments and whatever their categories, each with
  the bytes and the content type of its attachment and to the storage path made from its
  file name, and after them the one webhook request; the uploads recorded are, for each
  attachment, its category, its file name and the public URL of the path it was sent to;
  the payload's \<open>fileUrls\<close> lists the URL of every upload in that order; and the payload's
  \<open>files\<close> object has at most one entry per category, which is the last uploaded
  attachment of that category.
\<close>

theorem same_category_attachments:
  assumes gates: "reaches_parsing cfg w store req"
    and parsed: "parseMultipartFormData req = Inr (flds, fs)"
    and valid: "fst (validateFormData flds) = []"
    and fin: "''financialInfo'' \<in> set (map fieldname fs)"
    and ups: "\<forall>j<length fs. upload_succeeds (storage_reply w j)"
    and su: "SUPABASE_URL cfg = Some su"
    and sk: "SUPABASE_SERVICE_KEY cfg = Some sk"
    and hook: "WEBHOOK_URL cfg = Some hook"
    and uploaded: "uploaded = map (expected_upload su (SUPABASE_BUCKET cfg) w) (enumerate 0 fs)"
    and p: "p = webhookPayload (snd (validateFormData flds)) (server_now w) (clientIpOf req)
                  uploaded"
  shows "snd (snd (handler cfg w store req))
           = map (expected_call su sk (SUPABASE_BUCKET cfg) w) (enumerate 0 fs)
               @ [WebhookPost hook p] \<and>
         upload_files cfg w 0 fs [] []
           = (map (expected_call su sk (SUPABASE_BUCKET cfg) w) (enumerate 0 fs),
              Inr uploaded) \<and>
         fileUrls p = map url uploaded \<and>
         distinct (map fst (files p)) \<and>
         (\<forall>c. map_of (files p) c = last_of_category c uploaded)"
proof -
  from gates have post: "req_method req = ''POST''" by (simp add: reaches_parsing_def)
  have o: "or_else (SUPABASE_URL cfg) '''' = su"
    "or_else (SUPABASE_SERVICE_KEY cfg) '''' = sk" "or_else (WEBHOOK_URL cfg) '''' = hook"
    using su sk hook by (simp_all add: or_else_def)
  from ups have "\<forall>j<length fs. upload_succeeds (storage_reply w (0 + j))" by simp
  from upload_files_exact [OF this, of cfg "[]" "[]"]
  have u: "upload_files cfg w 0 fs [] []
             = (map (expected_call su sk (SUPABASE_BUCKET cfg) w) (enumerate 0 fs),
                Inr uploaded)"
    by (simp add: o uploaded)
  have "snd (snd (handler_try cfg w store req
                    (getCorsHeaders cfg (or_else (origin_header req) ''''))))
          = map (expected_call su sk (SUPABASE_BUCKET cfg) w) (enumerate 0 fs)
              @ [WebhookPost hook p]"
    using process_submission_uploaded [OF valid fin u]
    by (simp add: handler_try_parsing [OF gates] parsed o p split: fetch_reply.splits)
  with handler_post [OF post, of cfg w store]
  have sent: "snd (snd (handler cfg w store req))
           = map (expected_call su sk (SUPABASE_BUCKET cfg) w) (enumerate 0 fs)
               @ [WebhookPost hook p]"
    by simp
  have "fileUrls p = map url uploaded" by (simp add: p webhookPayload_def)
  moreover have "distinct (map fst (files p))"
    and "\<forall>c. map_of (files p) c = last_of_category c uploaded"
    using files_by_category_last [of uploaded] by (simp_all add: p webhookPayload_def)
  ultimately show ?thesis
    using u sent by blast
qed

theorem same_category_attachments_witness:
  "reaches_parsing cfg0 world0 Map.empty three_files \<and>
   fst (validateFormData text_fields) = [] \<and>
   list_all (\<lambda>j. upload_succeeds (storage_reply world0 j)) [0..<3] \<and>
   snd (snd (handler cfg0 world0 Map.empty three_files))
     = three_posts @
       [WebhookPost ''https://hooks.example/intake''
          (webhookPayload (snd (validateFormData text_fields)) 1700000000200 ''203.0.113.7''
             three_uploads)] \<and>
   fileUrls (webhookPayload (snd (validateFormData text_fields)) 1700000000200
               ''203.0.113.7'' three_uploads)
     = map url three_uploads \<and>
   map_of (files (webhookPayload (snd (validateFormData text_fields)) 1700000000200
                    ''203.0.113.7'' three_uploads)) ''t12''
     = Some (''t12 b.pdf'',
         ''https://db.example/storage/v1/object/public/temp_files/uploads/1700000000102-2021222324252627-t12_b.pdf'')"
proof -
  let ?fs = "[parsed_pdf ''financialInfo'' ''fin.pdf'', parsed_pdf ''t12'' ''t12 a.pdf'',
              parsed_pdf ''t12'' ''t12 b.pdf'']"
  let ?p = "webhookPayload (snd (validateFormData text_fields)) 1700000000200
              ''203.0.113.7'' three_uploads"
  have g: "reaches_parsing cfg0 world0 Map.empty three_files"
    unfolding three_files_def by (rule reaches_parsing_post)
  have f: "''financialInfo'' \<in> set (map fieldname ?fs)"
    by (simp add: parsed_pdf_def)
  have u: "upload_succeeds (storage_reply world0 j)" for j
    by (simp add: world0_def upload_succeeds_def ok_status_def)
  then have u': "\<forall>j<length ?fs. upload_succeeds (storage_reply world0 j)" by simp
  have c: "SUPABASE_URL cfg0 = Some ''https://db.example''"
    "SUPABASE_SERVICE_KEY cfg0 = Some ''service-key''"
    "WEBHOOK_URL cfg0 = Some ''https://hooks.example/intake''"
    by (simp_all add: cfg0_def)
  have b: "SUPABASE_BUCKET cfg0 = ''temp_files''"
    by (simp add: SUPABASE_BUCKET_def cfg0_def or_else_def)
  have up: "three_uploads
              = map (expected_upload ''https://db.example'' (SUPABASE_BUCKET cfg0) world0)
                  (enumerate 0 ?fs)"
    unfolding b three_files_parsed three_results ..
  have pl: "?p = webhookPayload (snd (validateFormData text_fields)) (server_now world0)
                   (clientIpOf three_files) three_uploads"
    unfolding three_files_def clientIpOf_post by (simp add: world0_def)
  have l: "last_of_category ''t12'' three_uploads
     = Some (''t12 b.pdf'',
         ''https://db.example/storage/v1/object/public/temp_files/uploads/1700000000102-2021222324252627-t12_b.pdf'')"
    by (simp add: last_of_category_def three_uploads_def)
  note th = same_category_attachments [OF g parse_three_files validate_text_fields f u' c up pl,
      unfolded b three_files_parsed three_calls]
  from th have 1: "snd (snd (handler cfg0 world0 Map.empty three_files))
     = three_posts @ [WebhookPost ''https://hooks.example/intake'' ?p]"
    and 2: "fileUrls ?p = map url three_uploads"
    and 3: "map_of (files ?p) ''t12'' = last_of_category ''t12'' three_uploads"
    by blast+
  from u have 4: "list_all (\<lambda>j. upload_succeeds (storage_reply world0 j)) [0..<3]"
    by (simp add: list_all_iff)
  from g validate_text_fields 4 1 2 3 [unfolded l] show ?thesis by (intro conjI)
qed

lemma handler_returns:
  assumes "cors_value_ok cfg req"
  shows "\<exists>r. fst (handler cfg w store req) = Inr r"
proof -
  from assms have ok: "legal_value (normalize_value
      (allowOrigin cfg (or_else (origin_header req) '''')))"
    by (simp add: cors_value_ok_def)
  show ?thesis
  proof (cases "req_method req = ''POST''")
    case True
    let ?cors = "getCorsHeaders cfg (or_else (origin_header req) '''')"
    show ?thesis
    proof (cases "fst (handler_try cfg w store req ?cors)")
      case (Inl e)
      with handler_post [OF True, of cfg w store] ok show ?thesis
        by (simp add: Response_new_cors null_body_status_def)
    next
      case (Inr r)
      with handler_post [OF True, of cfg w store] show ?thesis by simp
    qed
  next
    case False
    with ok show ?thesis
      by (simp add: handler_def Let_def Response_new_cors null_body_status_def)
  qed
qed

text \<open>The preview-domain test is \<^verbatim>\<open>includes\<close>, not a test of the end of the origin: an
  origin that has \<open>vercel.app\<close> in the middle is echoed although it is not listed.\<close>

lemma preview_domain_inside_origin:
  "''https://vercel.app.evil.example'' \<notin> set (ALLOWED_ORIGINS cfg0) \<and>
   \<not> suffix ''vercel.app'' ''https://vercel.app.evil.example'' \<and>
   allowOrigin cfg0 ''https://vercel.app.evil.example'' = ''https://vercel.app.evil.example''"
  by (simp add: ALLOWED_ORIGINS_cfg0 allowOrigin_def isAllowed_def suffix_to_prefix)

text \<open>
  C6 as stated fails where no origin is configured: the empty list allows every origin,
  so the origin of the request is echoed and the wildcard is not sent. The preflight from
  \<open>https://elsewhere.example\<close>, which does not end in \<open>vercel.app\<close>, on the deployment
  without settings is answered with that origin in \<open>Access-Control-Allow-Origin\<close>.
\<close>

theorem cors_counterexample:
  "ALLOWED_ORIGINS cfg_none = [] \<and>
   origin_header preflight = Some ''https://elsewhere.example'' \<and>
   \<not> suffix ''vercel.app'' ''https://elsewhere.example'' \<and>
   allowOrigin cfg_none ''https://elsewhere.example'' = ''https://elsewhere.example'' \<and>
   fst (handler cfg_none world0 Map.empty preflight) =
     Inr \<lparr>status = 204,
          resp_headers =
            [(''Access-Control-Allow-Origin'', ''https://elsewhere.example''),
             (''Access-Control-Allow-Methods'', ''POST, OPTIONS''),
             (''Access-Control-Allow-Headers'', ''Content-Type, X-Requested-With''),
             (''Access-Control-Max-Age'', ''86400''),
             (''Content-Type'', ''application/json'')],
          body = None\<rparr>"
proof -
  have l: "ALLOWED_ORIGINS cfg_none = []"
    by (simp add: ALLOWED_ORIGINS_def cfg_none_def or_else_def)
  have o: "origin_header preflight = Some ''https://elsewhere.example''"
    by (simp add: preflight_def)
  have s: "\<not> suffix ''vercel.app'' ''https://elsewhere.example''"
    by (simp add: suffix_to_prefix)
  have a: "allowOrigin cfg_none ''https://elsewhere.example'' = ''https://elsewhere.example''"
    by (simp add: allowOrigin_def isAllowed_def l)
  have v: "normalize_value ''https://elsewhere.example'' = ''https://elsewhere.example''"
    "legal_value ''https://elsewhere.example''"
    by (simp_all add: normalize_value_def http_space_def legal_value_def)
  have h: "fst (handler cfg_none world0 Map.empty preflight) =
     Inr \<lparr>status = 204,
          resp_headers =
            [(''Access-Control-Allow-Origin'', ''https://elsewhere.example''),
             (''Access-Control-Allow-Methods'', ''POST, OPTIONS''),
             (''Access-Control-Allow-Headers'', ''Content-Type, X-Requested-With''),
             (''Access-Control-Max-Age'', ''86400''),
             (''Content-Type'', ''application/json'')],
          body = None\<rparr>"
    by (simp add: handler_def Let_def preflight_def or_else_def Response_new_cors a v
        cors_response_headers_def)
  from l o s a h show ?thesis by (intro conjI)
qed

text \<open>
  C6, amended. The value computed for \<open>Access-Control-Allow-Origin\<close> is the request's
  origin when no origin is configured, when the origin is a member of the configured list,
  and when it ends in \<open>vercel.app\<close>. For an origin that is not a member of a non-empty
  list and has no \<open>vercel.app\<close> in it, the value is the first configured origin, which
  is not the request's origin. The value is always the request's origin or the first
  configured origin, so the wildcard is sent only as one of these. The handler returns a
  response exactly when this value can be a header value (no NUL, LF or CR inside), and
  every response it returns starts with the five CORS headers computed from the request's
  origin (an absent header counts as the empty string), the value of
  \<open>Access-Control-Allow-Origin\<close> with the white space at its ends removed.
\<close>

theorem cors_allow_origin:
  "(ALLOWED_ORIGINS cfg = [] \<longrightarrow> allowOrigin cfg origin = origin) \<and>
   (origin \<in> set (ALLOWED_ORIGINS cfg) \<longrightarrow> allowOrigin cfg origin = origin) \<and>
   (suffix ''vercel.app'' origin \<longrightarrow> allowOrigin cfg origin = origin) \<and>
   (ALLOWED_ORIGINS cfg \<noteq> [] \<and> origin \<notin> set (ALLOWED_ORIGINS cfg)
      \<and> \<not> str_includes origin ''vercel.app'' \<longrightarrow>
        allowOrigin cfg origin = hd (ALLOWED_ORIGINS cfg) \<and> allowOrigin cfg origin \<noteq> origin) \<and>
   (allowOrigin cfg origin = origin \<or>
      (ALLOWED_ORIGINS cfg \<noteq> [] \<and> allowOrigin cfg origin = hd (ALLOWED_ORIGINS cfg))) \<and>
   (\<exists>r. fst (handler cfg w store req) = Inr r) = cors_value_ok cfg req \<and>
   (\<forall>r. fst (handler cfg w store req) = Inr r \<longrightarrow>
      take 5 (resp_headers r) = cors_response_headers cfg (or_else (origin_header req) '''') \<and>
      map_of (resp_headers r) ''Access-Control-Allow-Origin''
        = Some (normalize_value (allowOrigin cfg (or_else (origin_header req) ''''))))"
proof -
  have ne: "ALLOWED_ORIGINS cfg \<noteq> [] \<Longrightarrow> hd (ALLOWED_ORIGINS cfg) \<noteq> []"
    using ALLOWED_ORIGINS_nonempty [of cfg] by (cases "ALLOWED_ORIGINS cfg") auto
  have hdin: "ALLOWED_ORIGINS cfg \<noteq> [] \<Longrightarrow> hd (ALLOWED_ORIGINS cfg) \<in> set (ALLOWED_ORIGINS cfg)"
    by simp
  have v: "allowOrigin cfg origin =
     (if ALLOWED_ORIGINS cfg = [] \<or> origin \<in> set (ALLOWED_ORIGINS cfg)
         \<or> str_includes origin ''vercel.app''
      then origin else hd (ALLOWED_ORIGINS cfg))"
    using ne by (cases "ALLOWED_ORIGINS cfg") (auto simp: allowOrigin_def isAllowed_def)
  have 1: "ALLOWED_ORIGINS cfg = [] \<longrightarrow> allowOrigin cfg origin = origin"
    and 2: "origin \<in> set (ALLOWED_ORIGINS cfg) \<longrightarrow> allowOrigin cfg origin = origin"
    unfolding v by simp_all
  have 3: "suffix ''vercel.app'' origin \<longrightarrow> allowOrigin cfg origin = origin"
    unfolding v using suffix_str_includes [of "''vercel.app''" origin] by simp
  have 4: "ALLOWED_ORIGINS cfg \<noteq> [] \<and> origin \<notin> set (ALLOWED_ORIGINS cfg)
      \<and> \<not> str_includes origin ''vercel.app'' \<longrightarrow>
        allowOrigin cfg origin = hd (ALLOWED_ORIGINS cfg) \<and> allowOrigin cfg origin \<noteq> origin"
    unfolding v using hdin by auto
  have 5: "allowOrigin cfg origin = origin \<or>
      (ALLOWED_ORIGINS cfg \<noteq> [] \<and> allowOrigin cfg origin = hd (ALLOWED_ORIGINS cfg))"
    unfolding v by auto
  have 6: "(\<exists>r. fst (handler cfg w store req) = Inr r) = cors_value_ok cfg req"
  proof (cases "cors_value_ok cfg req")
    case True
    with handler_returns [of cfg req w store] show ?thesis by simp
  next
    case False
    from handler_rejects [OF this, of w store] False show ?thesis by simp
  qed
  have 7: "take 5 (resp_headers r) = cors_response_headers cfg (or_else (origin_header req) '''') \<and>
      map_of (resp_headers r) ''Access-Control-Allow-Origin''
        = Some (normalize_value (allowOrigin cfg (or_else (origin_header req) '''')))"
    if "fst (handler cfg w store req) = Inr r" for r
  proof -
    from handler_headers [OF that]
    obtain extra where h: "resp_headers r
      = cors_response_headers cfg (or_else (origin_header req) '''') @ extra" ..
    show ?thesis unfolding h by (simp add: cors_response_headers_def)
  qed
  from 1 2 3 4 5 6 7 show ?thesis by blast
qed

theorem cors_allow_origin_witness:
  "ALLOWED_ORIGINS cfg_none = [] \<and>
   allowOrigin cfg_none ''https://other.example'' = ''https://other.example'' \<and>
   ALLOWED_ORIGINS cfg0 = [''https://intake.example'', ''https://www.intake.example''] \<and>
   allowOrigin cfg0 ''https://www.intake.example'' = ''https://www.intake.example'' \<and>
   suffix ''vercel.app'' ''https://intake-pr-12.vercel.app'' \<and>
   allowOrigin cfg0 ''https://intake-pr-12.vercel.app'' = ''https://intake-pr-12.vercel.app'' \<and>
   \<not> str_includes ''https://other.example'' ''vercel.app'' \<and>
   allowOrigin cfg0 ''https://other.example'' = ''https://intake.example'' \<and>
   allowOrigin cfg_blank ''https://elsewhere.example'' = '' https://intake.example'' \<and>
   cors_value_ok cfg_blank preflight \<and>
   (\<exists>r. fst (handler cfg_blank world0 saturated preflight) = Inr r \<and>
        map_of (resp_headers r) ''Access-Control-Allow-Origin''
          = Some ''https://intake.example'')"
proof -
  have n: "ALLOWED_ORIGINS cfg_none = []"
    by (simp add: ALLOWED_ORIGINS_def cfg_none_def or_else_def)
  have b: "ALLOWED_ORIGINS cfg_blank = ['' https://intake.example'']"
    by (simp add: ALLOWED_ORIGINS_def cfg_blank_def cfg0_def or_else_def)
  have o: "or_else (origin_header preflight) '''' = ''https://elsewhere.example''"
    by (simp add: preflight_def or_else_def)
  have s: "suffix ''vercel.app'' ''https://intake-pr-12.vercel.app''"
    by (simp add: suffix_to_prefix)
  have i: "\<not> str_includes ''https://other.example'' ''vercel.app''"
    "\<not> str_includes ''https://elsewhere.example'' ''vercel.app''"
    by simp_all
  have nv: "normalize_value '' https://intake.example'' = ''https://intake.example''"
    "legal_value ''https://intake.example''"
    by (simp_all add: normalize_value_def http_space_def legal_value_def)
  from cors_allow_origin [of cfg_none "''https://other.example''" world0 saturated preflight] n
  have 1: "allowOrigin cfg_none ''https://other.example'' = ''https://other.example''"
    by simp
  from cors_allow_origin [of cfg0 "''https://www.intake.example''" world0 saturated preflight]
  have 2: "allowOrigin cfg0 ''https://www.intake.example'' = ''https://www.intake.example''"
    by (simp add: ALLOWED_ORIGINS_cfg0)
  from cors_allow_origin [of cfg0 "''https://intake-pr-12.vercel.app''" world0 saturated
      preflight] s
  have 3: "allowOrigin cfg0 ''https://intake-pr-12.vercel.app''
             = ''https://intake-pr-12.vercel.app''"
    by blast
  from cors_allow_origin [of cfg0 "''https://other.example''" world0 saturated preflight] i
  have 4: "allowOrigin cfg0 ''https://other.example'' = ''https://intake.example''"
    by (simp add: ALLOWED_ORIGINS_cfg0)
  note th = cors_allow_origin [of cfg_blank "''https://elsewhere.example''" world0 saturated
      preflight, unfolded o]
  from th i have 5: "allowOrigin cfg_blank ''https://elsewhere.example''
                       = '' https://intake.example''"
    by (simp add: b)
  have 6: "cors_value_ok cfg_blank preflight"
    by (simp add: cors_value_ok_def o 5 nv)
  with th obtain r where r: "fst (handler cfg_blank world0 saturated preflight) = Inr r"
    by blast
  with th have "map_of (resp_headers r) ''Access-Control-Allow-Origin''
          = Some (normalize_value (allowOrigin cfg_blank ''https://elsewhere.example''))"
    by blast
  with r have 7: "\<exists>r. fst (handler cfg_blank world0 saturated preflight) = Inr r \<and>
        map_of (resp_headers r) ''Access-Control-Allow-Origin''
          = Some ''https://intake.example''"
    by (simp add: 5 nv)
  from n 1 ALLOWED_ORIGINS_cfg0 2 s 3 i(1) 4 5 6 7 show ?thesis by (intro conjI)
qed

end
